theory Spec2Isabelle
  imports Complex_Main
begin

section \<open>Errors and tensors\<close>

text \<open>
  The Python exceptions that the modelled functions raise. \<open>ValueError\<close> carries the
  reason: the three range checks of the constructor, the rank check and the
  memory-save-mode check of \<open>init_Q_exprs\<close>. \<open>RuntimeError\<close> is what the tensor
  library raises when a view does not have the number of elements of its tensor and
  when \<open>torch.stack\<close> gets an empty list, when the infinity-norm of a tensor without
  entries is asked for, and when the shapes of the operands of an operation do not fit;
  \<open>AttributeError\<close> is raised by an attribute that the object does not have, and
  \<open>TypeError\<close> by an operand of the wrong kind.
  \<open>DeadReference\<close> is no exception of Python: it is the answer of the model for an
  address that holds no object, which no Python value is.
\<close>

datatype error =
    InvalidLearningRate
  | InvalidBeta
  | InvalidWeightDecay
  | RankTooLarge nat
  | InvalidMemorySaveMode string
  | ViewSizeMismatch "nat list" nat
  | StackOfNothing
  | NormOfNothing
  | ShapeMismatch
  | AttributeError string
  | TypeError
  | DeadReference nat

text \<open>The element types of the tensor library that the code tells apart.\<close>

datatype dtype = BFloat16 | Float16 | Float32 | Float64 | OtherDtype string

text \<open>
  A dense tensor: its shape, its element type and its entries in row-major order.
  Floating-point entries are modelled as real numbers.
\<close>

record tensor =
  shape :: "nat list"
  tdtype :: dtype
  entries :: "real list"

definition numel :: "tensor \<Rightarrow> nat" where
  "numel t = prod_list (shape t)"

text \<open>\<open>Tensor.view\<close> with an explicit shape: it raises unless the element counts agree.\<close>

definition view :: "tensor \<Rightarrow> nat list \<Rightarrow> error + tensor" where
  "view t new_shape =
     (if prod_list new_shape = numel t then Inr (t\<lparr>shape := new_shape\<rparr>)
      else Inl (ViewSizeMismatch new_shape (numel t)))"

section \<open>\<open>dim_merger\<close>\<close>

text \<open>
  The loop of \<open>dim_merger\<close> over \<open>shape[1:][::-1]\<close>; the state is \<open>new_shape\<close> and
  \<open>curr_shape\<close>.
\<close>

fun dim_merger_loop :: "int \<Rightarrow> nat list \<Rightarrow> nat list \<Rightarrow> nat \<Rightarrow> nat list \<times> nat" where
  "dim_merger_loop max_precond_dim [] new_shape curr_shape = (new_shape, curr_shape)"
| "dim_merger_loop max_precond_dim (sh # rest) new_shape curr_shape =
     (let temp_shape = curr_shape * sh in
      if int temp_shape > max_precond_dim then
        (if curr_shape > 1 then dim_merger_loop max_precond_dim rest (new_shape @ [curr_shape]) sh
         else dim_merger_loop max_precond_dim rest (new_shape @ [sh]) 1)
      else dim_merger_loop max_precond_dim rest new_shape temp_shape)"

definition dim_merger_shape :: "nat list \<Rightarrow> int \<Rightarrow> nat list" where
  "dim_merger_shape shp max_precond_dim =
     (let (new_shape, curr_shape) = dim_merger_loop max_precond_dim (rev (drop 1 shp)) [] 1;
          new_shape = take 1 shp @ rev new_shape
      in if curr_shape > 1 \<or> length new_shape = 0 then new_shape @ [curr_shape] else new_shape)"

text \<open>\<open>dim_merger(grad, max_precond_dim, split=False)\<close>: the view of the gradient.\<close>

definition dim_merger :: "tensor \<Rightarrow> int \<Rightarrow> error + tensor" where
  "dim_merger grad max_precond_dim = view grad (dim_merger_shape (shape grad) max_precond_dim)"

section \<open>\<open>precond_update_prob_schedule\<close>\<close>

text \<open>
  The closure \<open>_schedule\<close> returned by \<open>precond_update_prob_schedule\<close>, with the four
  keyword arguments as parameters. The step is a Python integer; \<open>math.exp\<close> is the real
  exponential. The source subtracts \<open>flat_start\<close> from \<open>n\<close> and then again inside
  the exponent.
\<close>

definition precond_update_prob_schedule :: "real \<Rightarrow> real \<Rightarrow> real \<Rightarrow> int \<Rightarrow> int \<Rightarrow> real" where
  "precond_update_prob_schedule max_prob min_prob decay flat_start n =
     (if n < flat_start then max_prob
      else let n' = n - flat_start;
               prob = max_prob * exp (- decay * real_of_int (n' - flat_start))
           in max min_prob (min max_prob prob))"

text \<open>The schedule with the default arguments, as the constructor builds it.\<close>

definition default_schedule :: "int \<Rightarrow> real" where
  "default_schedule = precond_update_prob_schedule 1.0 0.03 0.001 250"

text \<open>The value of \<open>prob\<close> before the clamp, under the default arguments.\<close>

definition default_unclamped :: "int \<Rightarrow> real" where
  "default_unclamped n = exp (- 0.001 * real_of_int (n - 500))"

section \<open>Preconditioner factors\<close>

text \<open>
  The values a preconditioner factor takes: a 0-dimensional tensor (the factor of a scalar
  parameter), a 1-dimensional tensor (a diagonal factor) or a 2-dimensional tensor given
  by its rows (a triangular factor). Entries are real numbers.
\<close>

datatype factor = Scal real | Vec "real list" | Mat "real list list"

record qtensor =
  qdtype :: dtype
  qval :: factor

text \<open>\<open>Tensor.dim()\<close> of a factor.\<close>

fun ndim :: "factor \<Rightarrow> nat" where
  "ndim (Scal _) = 0"
| "ndim (Vec _) = 1"
| "ndim (Mat _) = 2"

text \<open>\<open>scale * torch.ones(size)\<close> and \<open>scale * torch.eye(size)\<close>.\<close>

definition scaled_ones :: "real \<Rightarrow> nat \<Rightarrow> factor" where
  "scaled_ones scale sz = Vec (replicate sz scale)"

definition scaled_eye :: "real \<Rightarrow> nat \<Rightarrow> factor" where
  "scaled_eye scale sz =
     Mat (map (\<lambda>i. map (\<lambda>j. if i = j then scale else 0) [0..<sz]) [0..<sz])"

section \<open>\<open>init_Q_exprs\<close>\<close>

definition letters :: string where
  "letters = ''abcdefghijklmnopqrstuvwxyzABCDEFGHIJKLMNOPQRSTUVWXYZ''"

text \<open>\<open>sep.join(xs)\<close> on strings.\<close>

fun join :: "string \<Rightarrow> string list \<Rightarrow> string" where
  "join sep [] = []"
| "join sep [x] = x"
| "join sep (x # y # ys) = x @ sep @ join sep (y # ys)"

text \<open>
  \<open>np.argsort\<close> on the shape: the indices in ascending order of their sizes. The
  default sort of the library is not stable, so the source does not fix the order in which
  indices of equal size come. The parameter \<open>tie\<close> ranks the indices: those of equal size
  come in ascending rank (and in index order where the ranks agree too). Every order that is
  ascending in the sizes is the result for some \<open>tie\<close>.
\<close>

definition argsort :: "(nat \<Rightarrow> nat) \<Rightarrow> nat list \<Rightarrow> nat list" where
  "argsort tie xs = sort_key (\<lambda>i. xs ! i) (sort_key tie [0..<length xs])"

text \<open>
  The rank that prefers no index: equal sizes keep the order of their indices, as an
  insertion sort leaves them. It gives the order \<open>[2, 0, 1]\<close> that \<open>np.argsort\<close> returns on
  the shape \<open>(4, 4, 2)\<close>.
\<close>

definition index_order :: "nat \<Rightarrow> nat" where
  "index_order i = 0"

text \<open>
  The list \<open>dim_diag\<close> for each memory-save mode, or the \<open>ValueError\<close> of an unknown
  mode. For \<open>one_diag\<close> the shape is not empty (rank 0 has returned before), so
  \<open>rev_sorted_dims[0]\<close> exists.
\<close>

definition dim_diag_of :: "(nat \<Rightarrow> nat) \<Rightarrow> string option \<Rightarrow> nat list \<Rightarrow> error + bool list" where
  "dim_diag_of tie memory_save_mode shp =
     (case memory_save_mode of
        None \<Rightarrow> Inr (map (\<lambda>_. False) shp)
      | Some mode \<Rightarrow>
          if mode = ''one_diag'' then
            (let rev_sorted_dims = rev (argsort tie shp);
                 dim_diag = map (\<lambda>_. False) shp
             in Inr (dim_diag[hd rev_sorted_dims := True]))
          else if mode = ''all_diag'' then Inr (map (\<lambda>_. True) shp)
          else Inl (InvalidMemorySaveMode mode))"

text \<open>The variables that the loop over the axes builds up.\<close>

record q_acc =
  acc_Q :: "qtensor list"
  piece1A :: "string list"
  piece2A :: string
  piece3A :: string
  exprGs :: "string list"
  piece1P :: "string list"
  piece2P :: "string list"
  piece3P :: string
  piece4P :: string

definition q_acc_init :: q_acc where
  "q_acc_init = \<lparr>acc_Q = [], piece1A = [], piece2A = [], piece3A = [], exprGs = [],
                  piece1P = [], piece2P = [], piece3P = [], piece4P = []\<rparr>"

text \<open>The test that sends an axis to the diagonal branch.\<close>

definition use_diagonal :: "nat \<Rightarrow> int \<Rightarrow> int \<Rightarrow> nat \<Rightarrow> bool \<Rightarrow> bool" where
  "use_diagonal rank max_size min_ndim_triangular sz dim_d \<longleftrightarrow>
     sz = 1 \<or> int sz > max_size \<or> int rank < min_ndim_triangular \<or> dim_d"

text \<open>One iteration of the loop, for axis \<open>i\<close> with its \<open>size\<close> and \<open>dim_d\<close>.\<close>

definition q_step ::
  "nat \<Rightarrow> real \<Rightarrow> int \<Rightarrow> int \<Rightarrow> dtype \<Rightarrow> q_acc \<Rightarrow> nat \<times> nat \<times> bool \<Rightarrow> q_acc" where
  "q_step rank scale max_size min_ndim_triangular dt a = (\<lambda>(i, sz, dim_d).
     if use_diagonal rank max_size min_ndim_triangular sz dim_d then
       (let piece1 = map (\<lambda>j. if j = i then letters ! (i + 13) else letters ! j) [0..<rank];
            subscripts = piece1 @ '','' @ piece1 @ ''->'' @ [letters ! (i + 13)]
        in a\<lparr>acc_Q := acc_Q a @ [\<lparr>qdtype = dt, qval = scaled_ones scale sz\<rparr>],
              piece1A := piece1A a @ [[letters ! i]],
              piece2A := piece2A a @ [letters ! i],
              piece3A := piece3A a @ [letters ! i],
              exprGs := exprGs a @ [subscripts],
              piece1P := piece1P a @ [[letters ! (i + 13)]],
              piece2P := piece2P a @ [[letters ! (i + 13)]],
              piece3P := piece3P a @ [letters ! (i + 13)],
              piece4P := piece4P a @ [letters ! (i + 13)]\<rparr>)
     else
       (let piece1 = map (\<lambda>j. if j = i then letters ! (i + 13) else letters ! j) [0..<rank];
            piece2 = map (\<lambda>j. if j = i then letters ! (i + 26) else letters ! j) [0..<rank];
            subscripts = piece1 @ '','' @ piece2 @ ''->'' @ [letters ! (i + 13), letters ! (i + 26)];
            la = letters ! i; lb = letters ! (i + 13); lc = letters ! (i + 26)
        in a\<lparr>acc_Q := acc_Q a @ [\<lparr>qdtype = dt, qval = scaled_eye scale sz\<rparr>],
              piece1A := piece1A a @ [[letters ! i, letters ! (i + 13)]],
              piece2A := piece2A a @ [letters ! (i + 13)],
              piece3A := piece3A a @ [letters ! i],
              exprGs := exprGs a @ [subscripts],
              piece1P := piece1P a @ [[la, lb]],
              piece2P := piece2P a @ [[la, lc]],
              piece3P := piece3P a @ [lc],
              piece4P := piece4P a @ [lb]\<rparr>))"

type_synonym exprs = "string \<times> string list \<times> string"

text \<open>
  \<open>init_Q_exprs(t, scale, max_size, min_ndim_triangular, memory_save_mode, dtype)\<close>, on
  the shape and element type of \<open>t\<close>. The result is the pair \<open>[Q, (exprA, exprGs,
  exprP)]\<close> or the \<open>ValueError\<close>. The root \<open>scale ** (1 / len(shape))\<close> is the real
  power, which is what Python computes for a scale that is not negative (the caller passes
  1.0). \<open>tie\<close> is the rank that \<open>np.argsort\<close> follows among equal sizes.
\<close>

definition init_Q_exprs ::
  "(nat \<Rightarrow> nat) \<Rightarrow> nat list \<Rightarrow> dtype \<Rightarrow> real \<Rightarrow> int \<Rightarrow> int \<Rightarrow> string option \<Rightarrow> dtype option
     \<Rightarrow> error + (qtensor list \<times> exprs)" where
  "init_Q_exprs tie shp t_dtype scale max_size min_ndim_triangular memory_save_mode dtype_arg =
     (let dt = (case dtype_arg of Some d \<Rightarrow> d | None \<Rightarrow> t_dtype) in
      if length shp = 0 then
        Inr ([\<lparr>qdtype = dt, qval = Scal scale\<rparr>], ('',->'', ['',->''], '',,->''))
      else if length shp > 13 then Inl (RankTooLarge (length shp))
      else
        (let scale' = scale powr (1 / real (length shp)) in
         case dim_diag_of tie memory_save_mode shp of
           Inl e \<Rightarrow> Inl e
         | Inr dim_diag \<Rightarrow>
             (let a = foldl (q_step (length shp) scale' max_size min_ndim_triangular dt) q_acc_init
                        (zip [0..<length shp] (zip shp dim_diag));
                  exprA = join '','' (piece1A a) @ '','' @ piece2A a @ ''->'' @ piece3A a;
                  exprP = join '','' (piece1P a) @ '','' @ join '','' (piece2P a) @ '','' @ piece3P a
                            @ ''->'' @ piece4P a
              in Inr (acc_Q a, (exprA, exprGs a, exprP)))))"

text \<open>The number of dimensions of each factor of a result of \<open>init_Q_exprs\<close>.\<close>

definition Q_ndims :: "error + (qtensor list \<times> exprs) \<Rightarrow> error + nat list" where
  "Q_ndims r = (case r of Inl e \<Rightarrow> Inl e | Inr (Q, _) \<Rightarrow> Inr (map (\<lambda>q. ndim (qval q)) Q))"

text \<open>
  The two initial factor values in the words of the specification: a vector of the
  axis size holding the scale everywhere, and a square matrix of the axis size holding
  the scale on its diagonal and zero elsewhere.
\<close>

definition is_scaled_ones_vector :: "real \<Rightarrow> nat \<Rightarrow> factor \<Rightarrow> bool" where
  "is_scaled_ones_vector s n f \<longleftrightarrow> (\<exists>v. f = Vec v \<and> length v = n \<and> (\<forall>i<n. v ! i = s))"

definition is_scaled_identity :: "real \<Rightarrow> nat \<Rightarrow> factor \<Rightarrow> bool" where
  "is_scaled_identity s n f \<longleftrightarrow>
     (\<exists>m. f = Mat m \<and> length m = n
          \<and> (\<forall>i<n. length (m ! i) = n \<and> (\<forall>j<n. m ! i ! j = (if i = j then s else 0))))"

text \<open>The memory-save modes that \<open>init_Q_exprs\<close> accepts.\<close>

definition valid_mode :: "string option \<Rightarrow> bool" where
  "valid_mode mode \<longleftrightarrow> mode = None \<or> mode = Some ''one_diag'' \<or> mode = Some ''all_diag''"

section \<open>The constructor of \<open>ForeachCachedPSGDKron\<close>\<close>

text \<open>
  \<open>preconditioner_update_probability\<close> is a callable on the step or a constant.
\<close>

datatype update_prob = Schedule "int \<Rightarrow> real" | Constant real

text \<open>
  The keyword arguments of \<open>__init__\<close>. \<open>clip_fn\<close> is a callable that the constructor
  stores without looking at it and is left out.
\<close>

record ctor_args =
  a_lr :: real
  a_beta :: real
  a_weight_decay :: real
  a_preconditioner_update_probability :: "update_prob option"
  a_max_size_triangular :: int
  a_min_ndim_triangular :: int
  a_memory_save_mode :: "string option"
  a_momentum_into_precond_update :: bool
  a_warmup_steps :: int
  a_merge_dims :: bool
  a_split :: bool
  a_store_triu_as_line :: bool
  a_foreach :: bool
  a_q_dtype :: string

text \<open>The default values of the signature.\<close>

definition default_args :: ctor_args where
  "default_args = \<lparr>a_lr = 0.001, a_beta = 0.9, a_weight_decay = 0.0,
     a_preconditioner_update_probability = None, a_max_size_triangular = 2048,
     a_min_ndim_triangular = 2, a_memory_save_mode = None,
     a_momentum_into_precond_update = True, a_warmup_steps = 1, a_merge_dims = False,
     a_split = False, a_store_triu_as_line = True, a_foreach = True,
     a_q_dtype = ''float32''\<rparr>"

text \<open>The dictionary \<open>defaults\<close>, which becomes the parameter group.\<close>

record group =
  g_lr :: real
  g_beta :: real
  g_weight_decay :: real
  g_max_size_triangular :: int
  g_min_ndim_triangular :: int
  g_memory_save_mode :: "string option"
  g_momentum_into_precond_update :: bool
  g_precond_lr :: real
  g_precond_init_scale :: real
  g_step :: int
  g_warmup_steps :: int
  g_merge_dims :: bool
  g_split :: bool
  g_store_triu_as_line :: bool
  g_q_dtype :: string

definition defaults_of :: "ctor_args \<Rightarrow> group" where
  "defaults_of a = \<lparr>g_lr = a_lr a, g_beta = a_beta a, g_weight_decay = a_weight_decay a,
     g_max_size_triangular = a_max_size_triangular a,
     g_min_ndim_triangular = a_min_ndim_triangular a,
     g_memory_save_mode = a_memory_save_mode a,
     g_momentum_into_precond_update = a_momentum_into_precond_update a,
     g_precond_lr = 0.1, g_precond_init_scale = 1.0, g_step = 0,
     g_warmup_steps = a_warmup_steps a, g_merge_dims = a_merge_dims a, g_split = a_split a,
     g_store_triu_as_line = a_store_triu_as_line a, g_q_dtype = a_q_dtype a\<rparr>"

text \<open>
  The optimizer object after construction: what the base class has set up, the update
  probability and \<open>_prob_step\<close>.
\<close>

record 'b optimizer =
  base :: 'b
  preconditioner_update_probability :: update_prob
  prob_step :: int

text \<open>
  \<open>ForeachCachedPSGDKron.__init__\<close>. The three range checks come first, in the order of
  the source; the memory-save mode is not looked at. The call
  \<open>super().__init__(params, defaults, foreach)\<close> is the parameter \<open>super_init\<close>: it
  passes three arguments, and the base class that takes them is not the two-argument
  \<open>PSGDBase.__init__\<close> of this version of \<open>utils.py\<close>.
\<close>

definition ForeachCachedPSGDKron_init ::
  "(group \<Rightarrow> bool \<Rightarrow> error + 'b) \<Rightarrow> ctor_args \<Rightarrow> error + 'b optimizer" where
  "ForeachCachedPSGDKron_init super_init a =
     (if \<not> 0.0 \<le> a_lr a then Inl InvalidLearningRate
      else if \<not> (0.0 \<le> a_beta a \<and> a_beta a < 1.0) then Inl InvalidBeta
      else if \<not> 0.0 \<le> a_weight_decay a then Inl InvalidWeightDecay
      else
        (let prob = (case a_preconditioner_update_probability a of
                       None \<Rightarrow> Schedule default_schedule | Some p \<Rightarrow> p)
         in case super_init (defaults_of a) (a_foreach a) of
              Inl e \<Rightarrow> Inl e
            | Inr b \<Rightarrow> Inr \<lparr>base = b, preconditioner_update_probability = prob,
                           prob_step = 0\<rparr>))"

text \<open>A base initialiser that stores the defaults as the parameter group.\<close>

definition store_defaults :: "group \<Rightarrow> bool \<Rightarrow> error + group" where
  "store_defaults defaults foreach = Inr defaults"

section \<open>Lazy creation of the per-parameter state in \<open>_step\<close>\<close>

text \<open>
  The state dictionary of one parameter; a key that is absent is \<open>None\<close>. The stored
  \<open>Q\<close> is the factor list itself or what \<open>triu_to_line\<close> made of it.
\<close>

datatype ('l, 't) stored_Q = Line 'l | Full "'t list"

record 'l pstate =
  exp_avg :: "tensor option"
  st_exprs :: "exprs option"
  st_Q :: "('l, qtensor) stored_Q option"
  st_Q_cache :: "qtensor list option"
  cache_expr :: "string option"

definition empty_pstate :: "'l pstate" where
  "empty_pstate = \<lparr>exp_avg = None, st_exprs = None, st_Q = None, st_Q_cache = None,
                    cache_expr = None\<rparr>"

text \<open>\<open>torch.zeros_like\<close>.\<close>

definition zeros_like :: "tensor \<Rightarrow> tensor" where
  "zeros_like t = t\<lparr>entries := map (\<lambda>_. 0) (entries t)\<rparr>"

text \<open>\<open>str.upper\<close> on one character of \<open>einsum_base\<close>.\<close>

definition upper :: "char \<Rightarrow> char" where
  "upper c = (if 97 \<le> (of_char c :: nat) \<and> (of_char c :: nat) \<le> 122
              then char_of ((of_char c :: nat) - 32) else c)"

text \<open>
  The string \<open>cache_expr\<close> built from the fresh factor list and the shape of the
  gradient. \<open>einsum_base\<close> is the lower-case alphabet followed by the upper-case one.
\<close>

definition make_cache_expr :: "qtensor list \<Rightarrow> nat list \<Rightarrow> string" where
  "make_cache_expr Q g_shape =
     (let expr = join '','' (map (\<lambda>(c, q). if ndim (qval q) = 2 then [upper c, c] else [c])
                               (zip letters Q));
          grad_expr = map fst (zip letters g_shape);
          out_expr = map (\<lambda>c. if upper c \<in> set expr then upper c else c) grad_expr
      in expr @ '','' @ grad_expr @ ''->'' @ out_expr)"

text \<open>
  The block \<open>if 'Q' not in state: \<dots>\<close> of \<open>_step\<close> for one pair \<open>(p, g)\<close>: the new
  state dictionary and the exception, if one was raised. An exception leaves the
  dictionary as the statements before it have made it. \<open>triu_to_line\<close> (not in this
  version of \<open>utils.py\<close>) and \<open>torch.empty_like\<close> (its result is uninitialised) are
  parameters; \<open>q_dtype\<close> is the element type that \<open>getattr(torch, group['q_dtype'])\<close>
  has given, and \<open>tie\<close> the rank that \<open>np.argsort\<close> follows among equal sizes.
\<close>

definition init_param_state ::
  "(nat \<Rightarrow> nat) \<Rightarrow> (qtensor list \<Rightarrow> 'l) \<Rightarrow> (qtensor \<Rightarrow> qtensor) \<Rightarrow> group \<Rightarrow> dtype \<Rightarrow> tensor \<Rightarrow> tensor
     \<Rightarrow> 'l pstate \<Rightarrow> error option \<times> 'l pstate" where
  "init_param_state tie triu_to_line empty_like grp q_dtype p g state =
     (if st_Q state \<noteq> None then (None, state)
      else
        (let state1 = state\<lparr>exp_avg := Some (zeros_like g)\<rparr> in
         case init_Q_exprs tie (shape p) (tdtype p) (g_precond_init_scale grp)
                (g_max_size_triangular grp) (g_min_ndim_triangular grp)
                (g_memory_save_mode grp) (Some q_dtype) of
           Inl e \<Rightarrow> (Some e, state1)
         | Inr (Q, exprs) \<Rightarrow>
             (None, state1\<lparr>st_exprs := Some exprs,
                      st_Q := Some (if g_store_triu_as_line grp then Line (triu_to_line Q)
                                    else Full Q),
                      st_Q_cache := Some (map empty_like Q),
                      cache_expr := Some (make_cache_expr Q (shape g))\<rparr>)))"

section \<open>Objects, identity and \<open>promote\<close>\<close>

text \<open>
  A Python value is a reference to an object on the heap or one of the element-type
  constants of the tensor library (\<open>torch.float32\<close> and its like, one object each).
  The heap is the list of the objects created so far; the address of an object is its
  position, and a new object goes to the end. A tensor object has its element type and
  its value; a tuple has its items.
\<close>

datatype pyval = Ref nat | DTypeVal dtype

datatype 'v pyobj = TensorObj dtype 'v | TupleObj "pyval list"

type_synonym 'v heap = "'v pyobj list"

definition alloc :: "'v heap \<Rightarrow> 'v pyobj \<Rightarrow> 'v heap \<times> pyval" where
  "alloc h obj = (h @ [obj], Ref (length h))"

text \<open>A value is live when it is a constant or refers to an object of the heap.\<close>

fun live :: "'v heap \<Rightarrow> pyval \<Rightarrow> bool" where
  "live h (Ref a) \<longleftrightarrow> a < length h"
| "live h (DTypeVal d) \<longleftrightarrow> True"

text \<open>The operator \<open>is\<close>: the same object.\<close>

definition py_is :: "pyval \<Rightarrow> pyval \<Rightarrow> bool" where
  "py_is x y \<longleftrightarrow> x = y"

text \<open>
  The condition \<open>x is (torch.bfloat16, torch.float16)\<close>: the tuple display builds a new
  tuple object, and \<open>x\<close> is compared with it. The result is the heap with the tuple and
  the truth value.
\<close>

definition promote_cond :: "'v heap \<Rightarrow> pyval \<Rightarrow> 'v heap \<times> bool" where
  "promote_cond h x =
     (let (h1, tup) = alloc h (TupleObj [DTypeVal BFloat16, DTypeVal Float16])
      in (h1, py_is x tup))"

text \<open>
  \<open>promote(x)\<close>. The attribute \<open>dtype\<close> exists on tensors only. \<open>x.float()\<close> makes a
  new tensor of element type \<open>float32\<close> with the same values (every \<open>bfloat16\<close> and
  \<open>float16\<close> number is a \<open>float32\<close> number).
\<close>

definition promote :: "'v heap \<Rightarrow> pyval \<Rightarrow> error + ('v heap \<times> pyval)" where
  "promote h x =
     (let (h1, c) = promote_cond h x in
      if c then Inr (h1, DTypeVal Float32)
      else
        (case x of
           DTypeVal d \<Rightarrow> Inl (AttributeError ''dtype'')
         | Ref a \<Rightarrow>
             if \<not> a < length h1 then Inl (DeadReference a)
             else
               (case h1 ! a of
                  TupleObj items \<Rightarrow> Inl (AttributeError ''dtype'')
                | TensorObj d v \<Rightarrow>
                    if d \<in> {BFloat16, Float16} then Inr (alloc h1 (TensorObj Float32 v))
                    else Inr (h1, x))))"

section \<open>\<open>psgd_balance_Q\<close>\<close>

text \<open>The entries of a factor, and the factor multiplied by a number.\<close>

fun factor_entries :: "factor \<Rightarrow> real list" where
  "factor_entries (Scal x) = [x]"
| "factor_entries (Vec v) = v"
| "factor_entries (Mat m) = concat m"

fun scale_factor :: "real \<Rightarrow> factor \<Rightarrow> factor" where
  "scale_factor c (Scal x) = Scal (c * x)"
| "scale_factor c (Vec v) = Vec (map (\<lambda>x. c * x) v)"
| "scale_factor c (Mat m) = Mat (map (map (\<lambda>x. c * x)) m)"

text \<open>
  \<open>q.norm(float("inf"))\<close>: the largest absolute value among all entries of the tensor,
  whatever its number of dimensions. The library refuses a tensor without entries; the
  callers below raise before they use the norm of such a tensor.
\<close>

definition norm_inf :: "factor \<Rightarrow> real" where
  "norm_inf q = foldr (\<lambda>x m. max \<bar>x\<bar> m) (factor_entries q) 0"

text \<open>\<open>norms.log().mean().exp()\<close>.\<close>

definition log_mean_exp :: "real list \<Rightarrow> real" where
  "log_mean_exp norms = exp (sum_list (map ln norms) / real (length norms))"

text \<open>
  \<open>psgd_balance_Q(Q_in)\<close>: the list after the in-place multiplication.
  \<open>torch.stack\<close> raises on an empty list, and the norm on a factor without entries.
\<close>

definition psgd_balance_Q :: "factor list \<Rightarrow> error + factor list" where
  "psgd_balance_Q Q_in =
     (if list_ex (\<lambda>q. factor_entries q = []) Q_in then Inl NormOfNothing
      else if Q_in = [] then Inl StackOfNothing
      else
        (let norms = map norm_inf Q_in;
             geometric_mean = log_mean_exp norms;
             norms = map (\<lambda>n. geometric_mean / n) norms
         in Inr (map (\<lambda>(q, c). scale_factor c q) (zip Q_in norms))))"

section \<open>\<open>psgd_lb\<close> and \<open>psgd_update_precond\<close>\<close>

text \<open>
  Matrices are lists of rows. The number of columns, a column, the transpose, the dot
  product, the products vector times matrix and matrix times matrix, and the Euclidean
  norm of a vector (\<open>torch.linalg.vector_norm\<close>).
\<close>

definition ncols :: "real list list \<Rightarrow> nat" where
  "ncols m = (case m of [] \<Rightarrow> 0 | r # _ \<Rightarrow> length r)"

definition col :: "real list list \<Rightarrow> nat \<Rightarrow> real list" where
  "col m j = map (\<lambda>r. r ! j) m"

definition transpose_m :: "real list list \<Rightarrow> real list list" where
  "transpose_m m = map (col m) [0..<ncols m]"

definition dot :: "real list \<Rightarrow> real list \<Rightarrow> real" where
  "dot x y = sum_list (map2 (\<lambda>a b. a * b) x y)"

definition vec_mat :: "real list \<Rightarrow> real list list \<Rightarrow> real list" where
  "vec_mat x m = map (\<lambda>j. dot x (col m j)) [0..<ncols m]"

definition mat_mul :: "real list list \<Rightarrow> real list list \<Rightarrow> real list list" where
  "mat_mul a b = map (\<lambda>r. vec_mat r b) a"

definition vector_norm :: "real list \<Rightarrow> real" where
  "vector_norm x = sqrt (sum_list (map (\<lambda>v. v * v) x))"

text \<open>\<open>torch.triu\<close>: the entries below the diagonal become zero.\<close>

definition triu :: "real list list \<Rightarrow> real list list" where
  "triu m = map (\<lambda>i. map (\<lambda>j. if i \<le> j then m ! i ! j else 0) [0..<length (m ! i)])
              [0..<length m]"

text \<open>
  \<open>torch.max(v, 0)\<close> on a vector: the largest value and the first index that holds it.
  The vectors it is used on below are not empty.
\<close>

fun max_list :: "real list \<Rightarrow> real" where
  "max_list [] = 0"
| "max_list [x] = x"
| "max_list (x # y # ys) = max x (max_list (y # ys))"

definition max_with_index :: "real list \<Rightarrow> real \<times> nat" where
  "max_with_index v = (max_list v, length (takeWhile (\<lambda>x. x \<noteq> max_list v) v))"

text \<open>
  \<open>psgd_lb(A, max_abs)\<close> on a real matrix: conjugation is the identity, \<open>A.H\<close> is the
  transpose.
\<close>

definition psgd_lb :: "real list list \<Rightarrow> real \<Rightarrow> real" where
  "psgd_lb A0 max_abs =
     (let A = map (map (\<lambda>x. x / max_abs)) A0;
          aa = map (map (\<lambda>x. x * x)) A;
          (value0, i) = max_with_index (map (\<lambda>k. sum_list (col aa k)) [0..<ncols aa]);
          (value1, j) = max_with_index (map sum_list aa);
          ah = transpose_m A;
          comp = value0 > value1;
          x = (if comp then col A i else A ! j);
          x = vec_mat x (if comp then A else transpose_m A);
          x = map (\<lambda>v. v / vector_norm x) x;
          x = vec_mat x (if comp then ah else transpose_m ah);
          x = vector_norm x
      in x * max_abs)"

text \<open>Operations entry by entry on factors of one shape.\<close>

fun same_shape :: "factor \<Rightarrow> factor \<Rightarrow> bool" where
  "same_shape (Scal _) (Scal _) \<longleftrightarrow> True"
| "same_shape (Vec v) (Vec w) \<longleftrightarrow> length v = length w"
| "same_shape (Mat m) (Mat n) \<longleftrightarrow> map length m = map length n"
| "same_shape _ _ \<longleftrightarrow> False"

fun fmap :: "(real \<Rightarrow> real) \<Rightarrow> factor \<Rightarrow> factor" where
  "fmap f (Scal x) = Scal (f x)"
| "fmap f (Vec v) = Vec (map f v)"
| "fmap f (Mat m) = Mat (map (map f) m)"

fun fmap2 :: "(real \<Rightarrow> real \<Rightarrow> real) \<Rightarrow> factor \<Rightarrow> factor \<Rightarrow> factor" where
  "fmap2 f (Scal x) (Scal y) = Scal (f x y)"
| "fmap2 f (Vec v) (Vec w) = Vec (map2 f v w)"
| "fmap2 f (Mat m) (Mat n) = Mat (map2 (map2 f) m n)"
| "fmap2 f a b = a"

text \<open>
  The body of the loop of \<open>psgd_update_precond\<close> for one factor \<open>q\<close>, from the two
  contractions \<open>term1\<close> and \<open>term2\<close> on: the new value of \<open>q\<close>. The contractions have
  the shape of \<open>q\<close> by the construction of \<open>exprGs\<close>; other operands are refused, and so
  is a tensor without entries by the norm.
\<close>

definition update_factor :: "real \<Rightarrow> real \<Rightarrow> factor \<Rightarrow> factor \<Rightarrow> factor \<Rightarrow> error + factor" where
  "update_factor step tiny q term1_0 term2_0 =
     (if \<not> same_shape q term1_0 \<or> \<not> same_shape q term2_0 then Inl ShapeMismatch
      else
        (let term2 = fmap2 (\<lambda>b a. b + a) term2_0 term1_0;
             term1 = fmap (\<lambda>a. a * 2) term1_0;
             term1 = fmap2 (\<lambda>a b. a - b) term1 term2;
             term1 = fmap (\<lambda>a. a * step) term1
         in if factor_entries term2 = [] then Inl NormOfNothing
            else
              (let norm = norm_inf term2 in
               if ndim q < 2 then
                 (let term1 = fmap2 (\<lambda>a x. a * x) term1 q
                  in Inr (fmap2 (\<lambda>x a. x + (- 1) * (a / max norm tiny)) q term1))
               else
                 (case (q, term1, term2) of
                    (Mat qm, Mat t1, Mat t2) \<Rightarrow>
                      (let t1 = triu t1;
                           d = max (if norm > 0 then psgd_lb t2 norm else norm) tiny;
                           t1 = map (map (\<lambda>a. a / d)) t1
                       in Inr (Mat (map2 (map2 (\<lambda>x y. x + (- 1) * y)) qm (mat_mul t1 qm))))
                  | _ \<Rightarrow> Inl ShapeMismatch))))"

text \<open>The loop \<open>for q, exprG in zip(Q, exprGs)\<close>; factors beyond the zip stay as they are.\<close>

fun update_factors ::
  "(string \<Rightarrow> 'g \<Rightarrow> 'g \<Rightarrow> factor) \<Rightarrow> 'g \<Rightarrow> 'g \<Rightarrow> real \<Rightarrow> real \<Rightarrow> factor list \<Rightarrow> string list
     \<Rightarrow> error + factor list" where
  "update_factors einsum A conjB step tiny (q # qs) (exprG # es) =
     (case update_factor step tiny q (einsum exprG A A) (einsum exprG conjB conjB) of
        Inl e \<Rightarrow> Inl e
      | Inr q' \<Rightarrow>
          (case update_factors einsum A conjB step tiny qs es of
             Inl e \<Rightarrow> Inl e
           | Inr qs' \<Rightarrow> Inr (q' # qs')))"
| "update_factors einsum A conjB step tiny qs es = Inr qs"

text \<open>
  \<open>psgd_update_precond(Q, exprs, V, G, step, tiny)\<close> on real tensors (conjugation is the
  identity): the factor list after the in-place updates. \<open>torch.einsum\<close> on two
  operands is the parameter \<open>einsum\<close>. \<open>psgd_calc_A_and_conjB\<close> is the parameter
  \<open>calc_A_and_conjB\<close>: its body is a sequence of calls of the tensor library (einsum,
  permute, triangular solve, transpose) on tensors of any rank, and it reads \<open>Q\<close> without
  changing it.
\<close>

definition psgd_update_precond ::
  "(string \<Rightarrow> 'g \<Rightarrow> 'g \<Rightarrow> factor) \<Rightarrow> (string \<Rightarrow> 'g \<Rightarrow> factor list \<Rightarrow> 'g \<Rightarrow> 'g \<times> 'g)
     \<Rightarrow> factor list \<Rightarrow> exprs \<Rightarrow> 'g \<Rightarrow> 'g \<Rightarrow> real \<Rightarrow> real \<Rightarrow> error + factor list" where
  "psgd_update_precond einsum calc_A_and_conjB Q exprs V G step tiny =
     (case exprs of (exprA, exprGs', _) \<Rightarrow>
        (case calc_A_and_conjB exprA G Q V of (A, conjB) \<Rightarrow>
           update_factors einsum A conjB step tiny Q exprGs'))"

text \<open>
  The update of one factor as a formula, with \<open>a\<close> for the contraction \<open>term1\<close> and
  \<open>b\<close> for \<open>term2\<close>. A factor of fewer than two dimensions loses
  \<open>step * (2 a - (a + b)) * q / max(norm, tiny)\<close> entry by entry, where \<open>norm\<close> is the
  infinity-norm of \<open>a + b\<close>. A matrix factor loses the matrix product of the divided
  upper-triangular part of \<open>step * (2 a - (a + b))\<close> with \<open>q\<close>; the divisor is
  \<open>psgd_lb(a + b, norm)\<close> (or \<open>norm\<close> when it is zero), and at least \<open>tiny\<close>.
\<close>

definition diagonal_update :: "real \<Rightarrow> real \<Rightarrow> real \<Rightarrow> real list \<Rightarrow> real list \<Rightarrow> real list \<Rightarrow> real list" where
  "diagonal_update step tiny nrm q a b =
     map (\<lambda>(x, a, b). x - step * (2 * a - (a + b)) * x / max nrm tiny) (zip q (zip a b))"

definition triangular_update ::
  "real \<Rightarrow> real \<Rightarrow> real list list \<Rightarrow> real list list \<Rightarrow> real list list \<Rightarrow> real list list" where
  "triangular_update step tiny q a b =
     (let s = map2 (map2 (\<lambda>a b. a + b)) a b;
          norm = norm_inf (Mat s);
          d = max (if 0 < norm then psgd_lb s norm else norm) tiny;
          correction = map2 (map2 (\<lambda>a b. step * (2 * a - (a + b)))) a b
      in map2 (map2 (\<lambda>x y. x - y)) q (mat_mul (map (map (\<lambda>c. c / d)) (triu correction)) q))"

fun expected_factor :: "real \<Rightarrow> real \<Rightarrow> factor \<Rightarrow> factor \<Rightarrow> factor \<Rightarrow> factor" where
  "expected_factor step tiny (Scal x) (Scal a) (Scal b) =
     Scal (x - step * (2 * a - (a + b)) * x / max \<bar>a + b\<bar> tiny)"
| "expected_factor step tiny (Vec q) (Vec a) (Vec b) =
     Vec (diagonal_update step tiny (norm_inf (Vec (map2 (\<lambda>a b. a + b) a b))) q a b)"
| "expected_factor step tiny (Mat q) (Mat a) (Mat b) = Mat (triangular_update step tiny q a b)"
| "expected_factor step tiny q a b = q"

text \<open>
  Stand-ins for the two parameters, to run the update on a hand-made example. A tensor is
  given by the table of its contractions with itself, one for each expression of
  \<open>exprGs\<close>; the contraction looks the expression up in its first operand, and the
  projection gives \<open>G\<close> for \<open>A\<close> and \<open>V\<close> for \<open>conjB\<close>.
\<close>

definition contraction_table ::
  "string \<Rightarrow> (string \<times> factor) list \<Rightarrow> (string \<times> factor) list \<Rightarrow> factor" where
  "contraction_table e x y = (case map_of x e of Some f \<Rightarrow> f | None \<Rightarrow> Scal 0)"

definition G_and_V :: "string \<Rightarrow> 'g \<Rightarrow> factor list \<Rightarrow> 'g \<Rightarrow> 'g \<times> 'g" where
  "G_and_V e G Q V = (G, V)"

section \<open>One parameter in the loop of \<open>_step\<close>\<close>

text \<open>
  In the step the factors and the cache entries are tensor objects that are changed in
  place, so they live on the heap and the lists hold references. The tensor behind a value,
  and the tensors behind a list of values (none if one of them is no tensor).
\<close>

definition tensor_at :: "'v heap \<Rightarrow> pyval \<Rightarrow> (dtype \<times> 'v) option" where
  "tensor_at h x =
     (case x of
        DTypeVal d \<Rightarrow> None
      | Ref a \<Rightarrow>
          if a < length h
          then (case h ! a of TensorObj d v \<Rightarrow> Some (d, v) | TupleObj items \<Rightarrow> None)
          else None)"

fun tensors_at :: "'v heap \<Rightarrow> pyval list \<Rightarrow> (dtype \<times> 'v) list option" where
  "tensors_at h [] = Some []"
| "tensors_at h (x # xs) =
     (case tensor_at h x of
        None \<Rightarrow> None
      | Some t \<Rightarrow> (case tensors_at h xs of None \<Rightarrow> None | Some ts \<Rightarrow> Some (t # ts)))"

text \<open>Writing a value into an existing tensor (\<open>out=c_\<close>): the object keeps its element type.\<close>

definition write_out :: "'v heap \<Rightarrow> pyval \<Rightarrow> 'v \<Rightarrow> 'v heap" where
  "write_out h x v =
     (case x of
        DTypeVal d \<Rightarrow> h
      | Ref a \<Rightarrow> (case tensor_at h x of None \<Rightarrow> h | Some (d, _) \<Rightarrow> h[a := TensorObj d v]))"

text \<open>The list comprehension \<open>[promote(q_) for q_ in q]\<close>.\<close>

fun promote_all :: "'v heap \<Rightarrow> pyval list \<Rightarrow> error + ('v heap \<times> pyval list)" where
  "promote_all h [] = Inr (h, [])"
| "promote_all h (x # xs) =
     (case promote h x of
        Inl e \<Rightarrow> Inl e
      | Inr (h1, y) \<Rightarrow>
          (case promote_all h1 xs of
             Inl e \<Rightarrow> Inl e
           | Inr (h2, ys) \<Rightarrow> Inr (h2, y # ys)))"

text \<open>
  The new cache entry for a factor: \<open>torch.matmul(q_.T.conj(), q_)\<close> when the factor has
  two dimensions, \<open>torch.mul(q_.conj(), q_)\<close> otherwise (real tensors: conjugation is the
  identity).
\<close>

definition cache_entry :: "factor \<Rightarrow> factor" where
  "cache_entry q =
     (if ndim q = 2 then (case q of Mat m \<Rightarrow> Mat (mat_mul (transpose_m m) m) | _ \<Rightarrow> q)
      else fmap2 (\<lambda>x y. x * y) q q)"

text \<open>The loop \<open>for c_, q_ in zip(cached_q, q)\<close>, which writes into the cache entries.\<close>

fun refresh_cache :: "factor heap \<Rightarrow> pyval list \<Rightarrow> pyval list \<Rightarrow> error + factor heap" where
  "refresh_cache h (c # cs) (q # qs) =
     (case tensor_at h q of
        None \<Rightarrow> Inl (AttributeError ''ndim'')
      | Some (dq, v) \<Rightarrow>
          (case tensor_at h c of
             None \<Rightarrow> Inl TypeError
           | Some _ \<Rightarrow> refresh_cache (write_out h c (cache_entry v)) cs qs))"
| "refresh_cache h cs qs = Inr h"

text \<open>Writing a list of values into a list of tensors, pair by pair.\<close>

fun write_all :: "'v heap \<Rightarrow> pyval list \<Rightarrow> 'v list \<Rightarrow> 'v heap" where
  "write_all h (x # xs) (v # vs) = write_all (write_out h x v) xs vs"
| "write_all h xs vs = h"

text \<open>
  Modelled from the spec: the packed storage of \<open>Q\<close>, whose functions \<open>triu_to_line\<close>
  and \<open>line_to_triu\<close> are not in this version of \<open>utils.py\<close>. The specification has
  \<open>Q\<close> optionally packed as a flattened upper-triangular representation, and the unpacking
  reproduce \<open>Q\<close> exactly for diagonal and triangular factors. A triangular factor of
  size \<open>n\<close> is stored as the line of its entries on and above the diagonal, row by row,
  with its size; a diagonal factor is stored as it is.
\<close>

definition pack_triu :: "real list list \<Rightarrow> real list" where
  "pack_triu m = concat (map (\<lambda>i. drop i (m ! i)) [0..<length m])"

definition row_start :: "nat \<Rightarrow> nat \<Rightarrow> nat" where
  "row_start n i = sum_list (map (\<lambda>k. n - k) [0..<i])"

definition unpack_triu :: "nat \<Rightarrow> real list \<Rightarrow> real list list" where
  "unpack_triu n line =
     map (\<lambda>i. map (\<lambda>j. if i \<le> j then line ! (row_start n i + (j - i)) else 0) [0..<n]) [0..<n]"

type_synonym line_entry = "nat option \<times> pyval"

text \<open>
  Modelled from the spec: \<open>line_to_triu\<close>, which is not in this version of \<open>utils.py\<close>.
  It gives the list of the factors as tensors: for a packed triangular factor a new matrix
  of the element type of the line, for a diagonal factor the stored tensor.
\<close>

fun line_to_triu :: "factor heap \<Rightarrow> line_entry list \<Rightarrow> error + (factor heap \<times> pyval list)" where
  "line_to_triu h [] = Inr (h, [])"
| "line_to_triu h ((shp, r) # rest) =
     (case tensor_at h r of
        None \<Rightarrow> Inl TypeError
      | Some (d, v) \<Rightarrow>
          (case shp of
             None \<Rightarrow>
               (case line_to_triu h rest of
                  Inl e \<Rightarrow> Inl e
                | Inr (h', rs) \<Rightarrow> Inr (h', r # rs))
           | Some n \<Rightarrow>
               (case v of
                  Vec line \<Rightarrow>
                    (case line_to_triu (fst (alloc h (TensorObj d (Mat (unpack_triu n line))))) rest of
                       Inl e \<Rightarrow> Inl e
                     | Inr (h', rs) \<Rightarrow>
                         Inr (h', snd (alloc h (TensorObj d (Mat (unpack_triu n line)))) # rs))
                | _ \<Rightarrow> Inl ShapeMismatch)))"

text \<open>The unpacked factor list \<open>q\<close>: \<open>line_to_triu(q_orig) if store_triu_as_line else q_orig\<close>.\<close>

definition unpack_q ::
  "bool \<Rightarrow> (line_entry list, pyval) stored_Q \<Rightarrow> factor heap \<Rightarrow> error + (factor heap \<times> pyval list)" where
  "unpack_q store_triu_as_line q_orig h =
     (if store_triu_as_line
      then (case q_orig of Line es \<Rightarrow> line_to_triu h es | Full refs \<Rightarrow> Inl TypeError)
      else (case q_orig of Full refs \<Rightarrow> Inr (h, refs) | Line es \<Rightarrow> Inl TypeError))"

text \<open>
  \<open>self.balance([g], [q32])\<close>, with the body of \<open>PSGDBase.balance\<close> inside the branch
  \<open>if do_update\<close>: nothing unless the draw \<open>self.rng.random()\<close> is at most 0.01 and the
  gradient has more than one dimension, and then \<open>psgd_balance_Q\<close> in place on the
  tensors of \<open>q32\<close>.
\<close>

definition balance :: "real \<Rightarrow> nat \<Rightarrow> factor heap \<Rightarrow> pyval list \<Rightarrow> error + factor heap" where
  "balance draw g_dim h q32 =
     (if draw > 0.01 then Inr h
      else if g_dim > 1 then
        (case tensors_at h q32 of
           None \<Rightarrow> Inl TypeError
         | Some ts \<Rightarrow>
             (case psgd_balance_Q (map snd ts) of
                Inl e \<Rightarrow> Inl e
              | Inr Q' \<Rightarrow> Inr (write_all h q32 Q')))
      else Inr h)"

text \<open>
  Modelled from the spec: what \<open>do_update\<close> does with its arguments \<open>[q_orig]\<close> and
  \<open>store_triu_as_line\<close>, which \<open>PSGDBase.do_update\<close> of this version of \<open>utils.py\<close> does
  not take. The specification keeps \<open>Q\<close> in the state of the parameter and has the
  update change \<open>Q\<close>: the stored \<open>Q\<close> receives the updated factors, a packed triangular
  factor as the line of its upper triangle.
\<close>

fun store_lines :: "factor heap \<Rightarrow> line_entry list \<Rightarrow> factor list \<Rightarrow> factor heap" where
  "store_lines h ((shp, r) # es) (v # vs) =
     store_lines
       (write_out h r
          (case shp of
             None \<Rightarrow> v
           | Some n \<Rightarrow> (case v of Mat m \<Rightarrow> Vec (pack_triu m) | _ \<Rightarrow> v)))
       es vs"
| "store_lines h es vs = h"

definition write_back ::
  "(line_entry list, pyval) stored_Q \<Rightarrow> factor heap \<Rightarrow> factor list \<Rightarrow> factor heap" where
  "write_back q_orig h Q' =
     (case q_orig of Line es \<Rightarrow> store_lines h es Q' | Full refs \<Rightarrow> write_all h refs Q')"

text \<open>
  What the tensor library does in the loop body, as parameters: \<open>torch.einsum\<close> on the
  cache entries and the momentum, \<open>torch.einsum\<close> on two operands, and
  \<open>psgd_calc_A_and_conjB\<close>.
\<close>

record 'g library =
  lib_einsum :: "string \<Rightarrow> factor list \<Rightarrow> 'g \<Rightarrow> 'g"
  lib_einsum2 :: "string \<Rightarrow> 'g \<Rightarrow> 'g \<Rightarrow> factor"
  lib_calc_A_and_conjB :: "string \<Rightarrow> 'g \<Rightarrow> factor list \<Rightarrow> 'g \<Rightarrow> 'g \<times> 'g"

text \<open>
  \<open>self.do_update([p], [grad], [q32], precond_lr, [q_orig], store_triu_as_line=\<dots>)\<close>, with
  the body of \<open>PSGDBase.do_update\<close>: \<open>psgd_update_precond\<close> in place on the tensors of
  \<open>q32\<close>, with the expressions of the state, the probe \<open>V\<close> that \<open>torch.randn_like\<close> has
  drawn, and \<open>tiny\<close>; then the stored \<open>Q\<close> receives the result.
\<close>

definition do_update_on ::
  "'g library \<Rightarrow> exprs \<Rightarrow> 'g \<Rightarrow> 'g \<Rightarrow> real \<Rightarrow> real \<Rightarrow> (line_entry list, pyval) stored_Q
     \<Rightarrow> factor heap \<Rightarrow> pyval list \<Rightarrow> error + factor heap" where
  "do_update_on lib exprs' V grad precond_lr tiny q_orig h q32 =
     (case tensors_at h q32 of
        None \<Rightarrow> Inl TypeError
      | Some ts \<Rightarrow>
          (case psgd_update_precond (lib_einsum2 lib) (lib_calc_A_and_conjB lib) (map snd ts) exprs'
                  V grad precond_lr tiny of
             Inl e \<Rightarrow> Inl e
           | Inr Q' \<Rightarrow> Inr (write_back q_orig (write_all h q32 Q') Q')))"

text \<open>
  What the loop body needs besides the heap: the strings of the state, the flags of the
  group, the random draws of this step and the gradient tensors. \<open>ea\<close> is the momentum
  after the interpolation of this step.
\<close>

record 'g step_input =
  in_cache_expr :: string
  in_exprs :: exprs
  in_do_update :: bool
  in_store_triu_as_line :: bool
  in_momentum_into_precond_update :: bool
  in_precond_lr :: real
  in_tiny :: real
  in_draw :: real
  in_V :: 'g
  in_g :: 'g
  in_g_dim :: nat
  in_ea :: 'g
  in_cached_q :: "pyval list"
  in_q_orig :: "(line_entry list, pyval) stored_Q"

text \<open>
  The body of the loop \<open>for i, (p, g) in enumerate(zip(p_list, grad_list))\<close> for one
  parameter, from \<open>new = torch.einsum(\<dots>)\<close> to \<open>set_(g, new)\<close>: the heap afterwards and the
  new content of \<open>g\<close>. Rounding to the element type of a tensor is not modelled.
\<close>

definition step_param ::
  "'g library \<Rightarrow> 'g step_input \<Rightarrow> factor heap \<Rightarrow> error + (factor heap \<times> 'g)" where
  "step_param lib i h =
     (case tensors_at h (in_cached_q i) of
        None \<Rightarrow> Inl TypeError
      | Some cached \<Rightarrow>
          (let new = lib_einsum lib (in_cache_expr i) (map snd cached) (in_ea i) in
           if \<not> in_do_update i then Inr (h, new)
           else
             (case unpack_q (in_store_triu_as_line i) (in_q_orig i) h of
                Inl e \<Rightarrow> Inl e
              | Inr (h1, q) \<Rightarrow>
                  (case promote_all h1 q of
                     Inl e \<Rightarrow> Inl e
                   | Inr (h2, q32) \<Rightarrow>
                       (case balance (in_draw i) (in_g_dim i) h2 q32 of
                          Inl e \<Rightarrow> Inl e
                        | Inr h3 \<Rightarrow>
                            (case do_update_on lib (in_exprs i) (in_V i)
                                    (if in_momentum_into_precond_update i then in_ea i else in_g i)
                                    (in_precond_lr i) (in_tiny i) (in_q_orig i) h3 q32 of
                               Inl e \<Rightarrow> Inl e
                             | Inr h4 \<Rightarrow>
                                 (case refresh_cache h4 (in_cached_q i) q of
                                    Inl e \<Rightarrow> Inl e
                                  | Inr h5 \<Rightarrow> Inr (h5, new))))))))"

text \<open>
  A stand-in for the contraction of the cache entries with the momentum, to run the loop
  body on a hand-made example: it returns the table of the cache entries it was given,
  under the expression, followed by the momentum.
\<close>

definition operands_seen ::
  "string \<Rightarrow> factor list \<Rightarrow> (string \<times> factor) list \<Rightarrow> (string \<times> factor) list" where
  "operands_seen e cs ea = map (\<lambda>c. (e, c)) cs @ ea"

definition example_library :: "((string \<times> factor) list) library" where
  "example_library = \<lparr>lib_einsum = operands_seen, lib_einsum2 = contraction_table,
                       lib_calc_A_and_conjB = G_and_V\<rparr>"



definition example_input :: "((string \<times> factor) list) step_input" where
  "example_input =
     \<lparr>in_cache_expr = ''Aa,Bb,ab->AB'',
      in_exprs = (''an,bo,no->ab'', [''nb,Ab->nA'', ''ao,aB->oB''], ''an,bo,aA,bB,AB->no''),
      in_do_update = True, in_store_triu_as_line = True,
      in_momentum_into_precond_update = True, in_precond_lr = 1 / 10, in_tiny = 1 / 2 ^ 126,
      in_draw = 1 / 2,
      in_V = [(''nb,Ab->nA'', Mat [[1, - 1], [- 1, 1]]), (''ao,aB->oB'', Mat [[1, - 1], [- 1, 1]])],
      in_g = [], in_g_dim = 2,
      in_ea = [(''nb,Ab->nA'', Mat [[3, 1], [1, 3]]), (''ao,aB->oB'', Mat [[3, 1], [1, 3]])],
      in_cached_q = [Ref 2, Ref 3],
      in_q_orig = Line [(Some 2, Ref 0), (Some 2, Ref 1)]\<rparr>"

section \<open>Properties of \<open>dim_merger\<close>\<close>

lemma dim_merger_loop_prod:
  "\<forall>d \<in> set shs. 0 < d \<Longrightarrow> 0 < cs \<Longrightarrow> dim_merger_loop m shs ns cs = (ns', cs') \<Longrightarrow>
     prod_list ns' * cs' = prod_list ns * cs * prod_list shs \<and> 0 < cs'"
proof (induction m shs ns cs rule: dim_merger_loop.induct)
  case (1 m ns cs)
  then show ?case by simp
next
  case (2 m sh rest ns cs)
  show ?case
  proof (cases "int (cs * sh) > m")
    case over: True
    show ?thesis
    proof (cases "cs > 1")
      case True
      with over 2 show ?thesis by (simp add: Let_def mult.assoc)
    next
      case False
      with \<open>0 < cs\<close> have "cs = 1" by simp
      with over False 2 show ?thesis by (simp add: Let_def)
    qed
  next
    case False
    with 2 show ?thesis by (simp add: Let_def mult.assoc)
  qed
qed

text \<open>
  On shapes without an empty axis the merged shape has the element count of the original
  shape, for every threshold; rank 0 and rank 1 are included.
\<close>

lemma dim_merger_shape_prod_positive:
  assumes "\<forall>d \<in> set shp. 0 < d"
  shows "prod_list (dim_merger_shape shp m) = prod_list shp"
proof -
  obtain ns' cs' where loop: "dim_merger_loop m (rev (drop 1 shp)) [] 1 = (ns', cs')"
    by (cases "dim_merger_loop m (rev (drop 1 shp)) [] 1") auto
  have tail: "\<forall>d \<in> set (rev (drop 1 shp)). 0 < d"
    using assms by (auto dest: in_set_dropD)
  from dim_merger_loop_prod [OF tail _ loop]
  have inv: "prod_list ns' * cs' = prod_list (drop 1 shp)" and pos: "0 < cs'"
    by simp_all
  have split: "prod_list shp = prod_list (take 1 shp) * prod_list (drop 1 shp)"
    by (metis append_take_drop_id prod_list.append)
  have prod_rev: "prod_list (rev ns') = prod_list ns'"
    by (induction ns') (simp_all add: mult.commute)
  have both: "prod_list (take 1 shp @ rev ns' @ [cs']) = prod_list shp"
    using inv split prod_rev by (simp add: mult.assoc)
  show ?thesis
  proof (cases "cs' > 1 \<or> length (take 1 shp @ rev ns') = 0")
    case True
    then have "dim_merger_shape shp m = take 1 shp @ rev ns' @ [cs']"
      using loop by (cases shp) (auto simp: dim_merger_shape_def Let_def)
    with both show ?thesis by simp
  next
    case False
    with pos have one: "cs' = 1" by simp
    from False have "dim_merger_shape shp m = take 1 shp @ rev ns'"
      using loop by (cases shp) (auto simp: dim_merger_shape_def Let_def)
    with both one show ?thesis by simp
  qed
qed

text \<open>
  C10. The merged shape of \<open>dim_merger\<close> is claimed to keep the number of elements for
  every shape. On the shape \<open>(2, 0)\<close> with threshold 1 the loop leaves
  \<open>curr_shape = 0\<close>, the test \<open>curr_shape > 1\<close> drops it, the merged shape is \<open>(2)\<close>
  with two elements for a tensor of none, and the view raises.
\<close>

theorem dim_merger_empty_axis:
  "dim_merger_shape [2, 0] 1 = [2]
   \<and> prod_list (dim_merger_shape [2, 0] 1) \<noteq> prod_list [2, 0]
   \<and> dim_merger \<lparr>shape = [2, 0], tdtype = Float32, entries = []\<rparr> 1 = Inl (ViewSizeMismatch [2] 0)"
  by (simp add: dim_merger_def dim_merger_shape_def view_def numel_def)

section \<open>The default update-probability schedule\<close>

lemma default_schedule_eq:
  "default_schedule n = (if n < 250 then 1 else max 0.03 (min 1 (default_unclamped n)))"
  by (simp add: default_schedule_def precond_update_prob_schedule_def default_unclamped_def Let_def)

lemma default_unclamped_strict: "m < n \<Longrightarrow> default_unclamped n < default_unclamped m"
  by (simp add: default_unclamped_def)

lemma default_unclamped_mono: "m \<le> n \<Longrightarrow> default_unclamped n \<le> default_unclamped m"
  by (simp add: default_unclamped_def)

lemma default_schedule_bounds: "0.03 \<le> default_schedule n \<and> default_schedule n \<le> 1"
  by (simp add: default_schedule_eq max_def min_def)

lemma default_schedule_mono: "m \<le> n \<Longrightarrow> default_schedule n \<le> default_schedule m"
  using default_unclamped_mono [of m n] by (auto simp: default_schedule_eq max_def min_def)

lemma default_schedule_strict:
  "m < n \<Longrightarrow> default_schedule m < 1 \<Longrightarrow> 0.03 < default_schedule n \<Longrightarrow>
     default_schedule n < default_schedule m"
  using default_unclamped_strict [of m n] by (auto simp: default_schedule_eq max_def min_def split: if_splits)

lemma exp_20_big: "(100::real) < exp 20"
proof -
  have "(1::real) + 10 \<le> exp 10" by (rule exp_ge_add_one_self)
  then have a: "(11::real) \<le> exp 10" by simp
  then have "(11::real) * 11 \<le> exp 10 * exp 10" by (intro mult_mono) simp_all
  moreover have "exp (20::real) = exp 10 * exp 10" by (simp add: exp_add [symmetric])
  ultimately show ?thesis by simp
qed

lemma default_unclamped_20500: "default_unclamped 20500 < 0.03"
proof -
  have "default_unclamped 20500 = exp (- 20)" by (simp add: default_unclamped_def)
  also have "\<dots> = 1 / exp 20" by (simp add: exp_minus inverse_eq_divide)
  also have "\<dots> < 0.03" using exp_20_big by (simp add: field_simps)
  finally show ?thesis .
qed

text \<open>
  C1 (as stated). The schedule is claimed to decrease strictly at every step from 250 on.
  The clamp \<open>max(min_prob, \<dots>)\<close> holds it at 0.03 once the exponential has fallen
  below: steps 20500 and 20501 both give 0.03.
\<close>

theorem default_schedule_floor_counterexample:
  "\<not> (default_schedule 20501 < default_schedule 20500)"
proof -
  have a: "default_schedule 20500 = 0.03"
    using default_unclamped_20500 by (simp add: default_schedule_eq max_def min_def)
  have "default_unclamped 20501 < default_unclamped 20500" by (rule default_unclamped_strict) simp
  with default_unclamped_20500 have "default_unclamped 20501 < 0.03" by simp
  then have b: "default_schedule 20501 = 0.03"
    by (simp add: default_schedule_eq max_def min_def)
  show ?thesis using a b by simp
qed

text \<open>
  The exponent is \<open>-decay * (n - 2 * flat_start)\<close>, so the unclamped value is still at
  least 1 up to step 500 and the schedule stays at 1.0 there.
\<close>

lemma default_schedule_plateau: "n \<le> 500 \<Longrightarrow> default_schedule n = 1"
  by (simp add: default_schedule_eq default_unclamped_def min_def max_def)

text \<open>
  C1 (amended). The default schedule is 1.0 at every step below 250, lies in
  \<open>[0.03, 1.0]\<close> at every step, never increases with the step, and decreases strictly
  from a step \<open>m\<close> to a later step \<open>n\<close> whenever it is below 1.0 at \<open>m\<close> and
  above 0.03 at \<open>n\<close>.
\<close>

theorem default_schedule_shape:
  "(\<forall>n. n < 250 \<longrightarrow> default_schedule n = 1)
   \<and> (\<forall>n. 0.03 \<le> default_schedule n \<and> default_schedule n \<le> 1)
   \<and> (\<forall>m n. m \<le> n \<longrightarrow> default_schedule n \<le> default_schedule m)
   \<and> (\<forall>m n. m < n \<and> default_schedule m < 1 \<and> 0.03 < default_schedule n
          \<longrightarrow> default_schedule n < default_schedule m)"
  using default_schedule_bounds default_schedule_mono default_schedule_strict
  by (simp add: default_schedule_eq)

lemma default_schedule_600: "default_schedule 600 < 1"
  by (simp add: default_schedule_eq default_unclamped_def)

lemma default_schedule_601: "0.03 < default_schedule 601"
proof -
  have "1 + (- 0.101) \<le> exp (- 0.101 :: real)" by (rule exp_ge_add_one_self)
  then have "0.03 < exp (- 0.101 :: real)" by simp
  then show ?thesis by (simp add: default_schedule_eq default_unclamped_def max_def min_def)
qed

theorem default_schedule_shape_witness:
  "default_schedule 100 = 1 \<and> default_schedule 600 \<le> default_schedule 550
   \<and> default_schedule 600 < 1 \<and> 0.03 < default_schedule 601
   \<and> default_schedule 601 < default_schedule 600"
proof -
  have a: "default_schedule 100 = 1" using default_schedule_shape by simp
  have b: "default_schedule 600 \<le> default_schedule 550"
    using default_schedule_shape by simp
  have c: "default_schedule 601 < default_schedule 600"
    using default_schedule_shape default_schedule_600 default_schedule_601 by simp
  show ?thesis using a b c default_schedule_600 default_schedule_601 by simp
qed

section \<open>The factor list of \<open>init_Q_exprs\<close>\<close>

lemma scaled_ones_is: "is_scaled_ones_vector s n (scaled_ones s n)"
  by (simp add: is_scaled_ones_vector_def scaled_ones_def)

lemma scaled_eye_is: "is_scaled_identity s n (scaled_eye s n)"
  by (simp add: is_scaled_identity_def scaled_eye_def)

lemma acc_Q_foldl:
  "acc_Q (foldl (q_step r s ms mn dt) a xs) =
     acc_Q a @ map (\<lambda>(i, sz, d). \<lparr>qdtype = dt,
        qval = (if use_diagonal r ms mn sz d then scaled_ones s sz else scaled_eye s sz)\<rparr>) xs"
  by (induction xs arbitrary: a) (auto simp: q_step_def Let_def split: prod.splits)

lemma dim_diag_of_length: "dim_diag_of tie mode shp = Inr dd \<Longrightarrow> length dd = length shp"
  by (auto simp: dim_diag_of_def Let_def split: option.splits if_splits)

lemma dim_diag_of_valid: "valid_mode mode \<Longrightarrow> \<exists>dd. dim_diag_of tie mode shp = Inr dd"
  by (auto simp: dim_diag_of_def valid_mode_def Let_def)

lemma init_Q_exprs_Q:
  assumes "shp \<noteq> []" "length shp \<le> 13" "dim_diag_of tie mode shp = Inr dd"
  shows "\<exists>e. init_Q_exprs tie shp td scale ms mn mode dto =
           Inr (map (\<lambda>i. \<lparr>qdtype = (case dto of Some d \<Rightarrow> d | None \<Rightarrow> td),
                  qval = (if use_diagonal (length shp) ms mn (shp ! i) (dd ! i)
                          then scaled_ones (scale powr (1 / real (length shp))) (shp ! i)
                          else scaled_eye (scale powr (1 / real (length shp))) (shp ! i))\<rparr>)
                  [0..<length shp], e)"
proof -
  have len: "length dd = length shp" using assms(3) by (rule dim_diag_of_length)
  have "map (\<lambda>(i, sz, d). \<lparr>qdtype = dt,
        qval = (if use_diagonal r ms mn sz d then scaled_ones s sz else scaled_eye s sz)\<rparr>)
          (zip [0..<length shp] (zip shp dd))
        = map (\<lambda>i. \<lparr>qdtype = dt,
        qval = (if use_diagonal r ms mn (shp ! i) (dd ! i) then scaled_ones s (shp ! i) else scaled_eye s (shp ! i))\<rparr>)
          [0..<length shp]" for dt r s
    using len by (intro nth_equalityI) simp_all
  then show ?thesis
    using assms by (simp add: init_Q_exprs_def Let_def acc_Q_foldl q_acc_init_def)
qed


lemma sorted_le_last: "sorted xs \<Longrightarrow> x \<in> set xs \<Longrightarrow> x \<le> last xs"
  by (induction xs) auto

lemma argsort_nonempty: "shp \<noteq> [] \<Longrightarrow> argsort tie shp \<noteq> []"
  by (metis argsort_def length_sort length_upt length_0_conv diff_zero)

lemma argsort_last_bound:
  assumes "shp \<noteq> []"
  shows "last (argsort tie shp) < length shp"
proof -
  have "last (argsort tie shp) \<in> set (argsort tie shp)"
    using argsort_nonempty [OF assms] by simp
  then show ?thesis by (simp add: argsort_def)
qed

lemma argsort_last_max:
  assumes "shp \<noteq> []" "j < length shp"
  shows "shp ! j \<le> shp ! last (argsort tie shp)"
proof -
  have ne: "argsort tie shp \<noteq> []" using assms(1) by (rule argsort_nonempty)
  have srt: "sorted (map (\<lambda>i. shp ! i) (argsort tie shp))"
    by (simp add: argsort_def)
  have "j \<in> set (argsort tie shp)" using assms(2) by (simp add: argsort_def)
  then have "shp ! j \<in> set (map (\<lambda>i. shp ! i) (argsort tie shp))" by force
  from sorted_le_last [OF srt this]
  show ?thesis using ne by (simp add: last_map)
qed

lemma dim_diag_one_diag:
  "dim_diag_of tie (Some ''one_diag'') shp = Inr ((map (\<lambda>_. False) shp)[last (argsort tie shp) := True])"
  by (simp add: dim_diag_of_def Let_def hd_rev)


text \<open>
  C8. For every shape of rank at most 13 and every accepted memory-save mode (the scale
  not negative), \<open>init_Q_exprs\<close> returns a factor list: the single 0-dimensional factor
  \<open>scale\<close> for rank 0, and otherwise one factor per axis, which is a vector of the axis
  size filled with \<open>scale ** (1 / rank)\<close> on an axis that takes the diagonal branch and
  the square identity of the axis size times \<open>scale ** (1 / rank)\<close> on the others.
\<close>

theorem init_Q_exprs_factor_list:
  assumes "length shp \<le> 13" "valid_mode mode" "0 \<le> scale"
  shows "\<exists>Q e dd. init_Q_exprs tie shp td scale ms mn mode dto = Inr (Q, e)
           \<and> (shp = [] \<longrightarrow> length Q = 1 \<and> qval (Q ! 0) = Scal scale)
           \<and> (shp \<noteq> [] \<longrightarrow> dim_diag_of tie mode shp = Inr dd \<and> length Q = length shp
                \<and> (\<forall>i<length shp.
                      if use_diagonal (length shp) ms mn (shp ! i) (dd ! i)
                      then is_scaled_ones_vector (scale powr (1 / real (length shp))) (shp ! i) (qval (Q ! i))
                      else is_scaled_identity (scale powr (1 / real (length shp))) (shp ! i) (qval (Q ! i))))"
proof (cases "shp = []")
  case True
  then show ?thesis by (simp add: init_Q_exprs_def)
next
  case False
  obtain dd where dd: "dim_diag_of tie mode shp = Inr dd"
    using dim_diag_of_valid [OF assms(2)] by blast
  from init_Q_exprs_Q [OF False assms(1) dd]
  obtain e where "init_Q_exprs tie shp td scale ms mn mode dto =
           Inr (map (\<lambda>i. \<lparr>qdtype = (case dto of Some d \<Rightarrow> d | None \<Rightarrow> td),
                  qval = (if use_diagonal (length shp) ms mn (shp ! i) (dd ! i)
                          then scaled_ones (scale powr (1 / real (length shp))) (shp ! i)
                          else scaled_eye (scale powr (1 / real (length shp))) (shp ! i))\<rparr>)
                  [0..<length shp], e)"
    by blast
  with False dd show ?thesis
    by (cases e) (auto simp add: scaled_ones_is scaled_eye_is)
qed

theorem init_Q_exprs_factor_list_witness:
  "length [4, 4 :: nat] \<le> 13 \<and> valid_mode None \<and> (0::real) \<le> 1
   \<and> (\<exists>Q e. init_Q_exprs index_order [4, 4] Float32 1 8 2 None None = Inr (Q, e) \<and> length Q = 2
        \<and> is_scaled_identity 1 4 (qval (Q ! 0)) \<and> is_scaled_identity 1 4 (qval (Q ! 1)))"
proof -
  have h1: "length [4, 4 :: nat] \<le> 13" by simp
  have h2: "valid_mode None" by (simp add: valid_mode_def)
  have h3: "(0::real) \<le> 1" by simp
  from init_Q_exprs_factor_list [OF h1 h2 h3, of index_order Float32 8 2 None]
  obtain Q e dd where r: "init_Q_exprs index_order [4, 4] Float32 1 8 2 None None = Inr (Q, e)"
    and rest: "[4, 4 :: nat] \<noteq> [] \<longrightarrow> dim_diag_of index_order None [4, 4] = Inr dd
         \<and> length Q = length [4, 4 :: nat]
         \<and> (\<forall>i<length [4, 4 :: nat].
               if use_diagonal (length [4, 4 :: nat]) 8 2 ([4, 4] ! i) (dd ! i)
               then is_scaled_ones_vector (1 powr (1 / real (length [4, 4 :: nat]))) ([4, 4] ! i) (qval (Q ! i))
               else is_scaled_identity (1 powr (1 / real (length [4, 4 :: nat]))) ([4, 4] ! i) (qval (Q ! i)))"
    by blast
  have ne: "[4, 4 :: nat] \<noteq> []" by simp
  from rest ne have dd: "dim_diag_of index_order None [4, 4] = Inr dd"
    and len: "length Q = length [4, 4 :: nat]"
    and ax: "\<forall>i<length [4, 4 :: nat].
               if use_diagonal (length [4, 4 :: nat]) 8 2 ([4, 4] ! i) (dd ! i)
               then is_scaled_ones_vector (1 powr (1 / real (length [4, 4 :: nat]))) ([4, 4] ! i) (qval (Q ! i))
               else is_scaled_identity (1 powr (1 / real (length [4, 4 :: nat]))) ([4, 4] ! i) (qval (Q ! i))"
    by blast+
  from dd have dd': "dd = [False, False]" by (simp add: dim_diag_of_def)
  have a0: "is_scaled_identity 1 4 (qval (Q ! 0))"
    using ax [rule_format, of 0] dd' by (simp add: use_diagonal_def)
  have a1: "is_scaled_identity 1 4 (qval (Q ! 1))"
    using ax [rule_format, of 1] dd' by (simp add: use_diagonal_def)
  show ?thesis using h1 h2 r len a0 a1 by (cases e) auto
qed

section \<open>The memory-save mode \<open>one_diag\<close>\<close>

lemma position_nth:
  "distinct r \<Longrightarrow> k < length r \<Longrightarrow> length (takeWhile (\<lambda>x. x \<noteq> r ! k) r) = k"
proof (induction r arbitrary: k)
  case Nil
  then show ?case by simp
next
  case (Cons a r)
  show ?case
  proof (cases k)
    case 0
    then show ?thesis by simp
  next
    case (Suc j)
    with Cons.prems have "r ! j \<in> set r" "a \<notin> set r" by simp_all
    then have "a \<noteq> r ! j" by auto
    with Suc Cons show ?thesis by simp
  qed
qed

text \<open>
  The parameter \<open>tie\<close> leaves out no behaviour of the library: every list of all the
  indices in which the sizes ascend is \<open>argsort tie\<close> for some rank \<open>tie\<close>.
\<close>

lemma argsort_any_order:
  assumes "distinct r" "set r = {0..<length xs}" "sorted (map (\<lambda>i. xs ! i) r)"
  shows "\<exists>tie. argsort tie xs = r"
proof
  let ?tie = "\<lambda>i. length (takeWhile (\<lambda>x. x \<noteq> i) r)"
  let ?s = "sort_key ?tie [0..<length xs]"
  have pos: "map ?tie r = [0..<length r]"
    using assms(1) by (intro nth_equalityI) (simp_all add: position_nth)
  have inj: "inj_on ?tie (set r)"
  proof (rule inj_onI)
    fix a b assume a: "a \<in> set r" and b: "b \<in> set r" and eq: "?tie a = ?tie b"
    from a obtain i where i: "i < length r" "a = r ! i" by (auto simp: in_set_conv_nth)
    from b obtain j where j: "j < length r" "b = r ! j" by (auto simp: in_set_conv_nth)
    from eq i j assms(1) have "i = j" by (simp add: position_nth)
    with i j show "a = b" by simp
  qed
  have set_s: "set ?s = set r" using assms(2) by simp
  have "?s = r"
  proof (rule map_sorted_distinct_set_unique [of ?tie])
    show "inj_on ?tie (set ?s \<union> set r)" using inj set_s by simp
    show "sorted (map ?tie ?s)" by simp
    show "distinct (map ?tie ?s)"
      using inj set_s by (simp add: distinct_map)
    show "sorted (map ?tie r)" by (simp add: pos)
    show "distinct (map ?tie r)" by (simp add: pos)
    show "set ?s = set r" by (rule set_s)
  qed
  then show "argsort ?tie xs = r"
    using assms(3) by (simp add: argsort_def sort_key_id_if_sorted)
qed

lemma argsort_index_order_442: "argsort index_order [4, 4, 2] = [2, 0, 1]"
  by (simp add: argsort_def index_order_def upt_rec)

text \<open>
  C2 (as stated). On the shape \<open>(4, 4, 2)\<close> with \<open>max_size = 8\<close> and
  \<open>min_ndim_triangular = 2\<close> the claim makes axis 0 diagonal. The ascending argsort is
  \<open>[2, 0, 1]\<close>, reversed \<open>[1, 0, 2]\<close>, so axis 1 is flagged: the factors have 2, 1 and 2
  dimensions.
\<close>

theorem one_diag_442_counterexample:
  "argsort index_order [4, 4, 2] = [2, 0, 1]
   \<and> dim_diag_of index_order (Some ''one_diag'') [4, 4, 2] = Inr [False, True, False]
   \<and> Q_ndims (init_Q_exprs index_order [4, 4, 2] Float32 1 8 2 (Some ''one_diag'') None)
       = Inr [2, 1, 2]"
proof -
  note a = argsort_index_order_442
  have d: "dim_diag_of index_order (Some ''one_diag'') [4, 4, 2] = Inr [False, True, False]"
    by (simp add: dim_diag_of_def a)
  have up: "[0..<3] = [0, 1, 2]" by (simp add: upt_rec)
  have q: "Q_ndims (init_Q_exprs index_order [4, 4, 2] Float32 1 8 2 (Some ''one_diag'') None)
             = Inr [2, 1, 2]"
  proof -
    have "\<exists>e. init_Q_exprs index_order [4, 4, 2] Float32 1 8 2 (Some ''one_diag'') None =
           Inr (map (\<lambda>i. \<lparr>qdtype = (case None of Some d \<Rightarrow> d | None \<Rightarrow> Float32),
                  qval = (if use_diagonal (length [4, 4, 2 :: nat]) 8 2 ([4, 4, 2] ! i) ([False, True, False] ! i)
                          then scaled_ones (1 powr (1 / real (length [4, 4, 2 :: nat]))) ([4, 4, 2] ! i)
                          else scaled_eye (1 powr (1 / real (length [4, 4, 2 :: nat]))) ([4, 4, 2] ! i))\<rparr>)
                  [0..<length [4, 4, 2 :: nat]], e)"
      by (rule init_Q_exprs_Q [OF _ _ d]) simp_all
    then obtain e where "init_Q_exprs index_order [4, 4, 2] Float32 1 8 2 (Some ''one_diag'') None =
           Inr (map (\<lambda>i. \<lparr>qdtype = Float32,
                  qval = (if use_diagonal 3 8 2 ([4, 4, 2] ! i) ([False, True, False] ! i)
                          then scaled_ones 1 ([4, 4, 2] ! i)
                          else scaled_eye 1 ([4, 4, 2] ! i))\<rparr>)
                  [0, 1, 2], e)"
      by (auto simp: up use_diagonal_def cong: if_cong)
    then show ?thesis
      by (simp add: Q_ndims_def use_diagonal_def scaled_ones_def scaled_eye_def)
  qed
  show ?thesis using a d q by simp
qed

text \<open>
  C2 (amended). For every shape of rank 1 to 13, the mode \<open>one_diag\<close> flags exactly
  one axis \<open>k\<close> in \<open>dim_diag\<close>: an axis of the largest size, namely the one that comes last
  in the ascending order of \<open>np.argsort\<close>; which of several axes of the largest size that
  is, the code leaves to the library (the rank \<open>tie\<close>). The factor of that axis is
  1-dimensional; the factor of any other axis is 2-dimensional exactly when its size is not
  1, is at most \<open>max_size\<close>, and the rank is at least \<open>min_ndim_triangular\<close>. On the
  shape \<open>(4, 4, 2)\<close>, where the ascending order is \<open>[2, 0, 1]\<close>, the flagged axis is 1.
\<close>

theorem one_diag_largest:
  assumes "shp \<noteq> []" "length shp \<le> 13"
  shows "\<exists>k Q e. k < length shp \<and> k = last (argsort tie shp)
           \<and> (\<forall>j<length shp. shp ! j \<le> shp ! k)
           \<and> dim_diag_of tie (Some ''one_diag'') shp = Inr ((map (\<lambda>_. False) shp)[k := True])
           \<and> init_Q_exprs tie shp td scale ms mn (Some ''one_diag'') dto = Inr (Q, e)
           \<and> length Q = length shp
           \<and> ndim (qval (Q ! k)) = 1
           \<and> (\<forall>i<length shp. i \<noteq> k \<longrightarrow>
                 (ndim (qval (Q ! i)) = 2 \<longleftrightarrow>
                    shp ! i \<noteq> 1 \<and> int (shp ! i) \<le> ms \<and> mn \<le> int (length shp)))"
proof -
  let ?k = "last (argsort tie shp)"
  let ?dd = "(map (\<lambda>_. False) shp)[?k := True]"
  have kb: "?k < length shp" using assms(1) by (rule argsort_last_bound)
  have dd: "dim_diag_of tie (Some ''one_diag'') shp = Inr ?dd" by (rule dim_diag_one_diag)
  from init_Q_exprs_Q [OF assms dd, of td scale ms mn dto]
  obtain e where r: "init_Q_exprs tie shp td scale ms mn (Some ''one_diag'') dto =
           Inr (map (\<lambda>i. \<lparr>qdtype = (case dto of Some d \<Rightarrow> d | None \<Rightarrow> td),
                  qval = (if use_diagonal (length shp) ms mn (shp ! i) (?dd ! i)
                          then scaled_ones (scale powr (1 / real (length shp))) (shp ! i)
                          else scaled_eye (scale powr (1 / real (length shp))) (shp ! i))\<rparr>)
                  [0..<length shp], e)" (is "_ = Inr (?Q, e)")
    by blast
  have len: "length ?Q = length shp" by simp
  have qk: "ndim (qval (?Q ! ?k)) = 1"
    using kb by (simp add: use_diagonal_def scaled_ones_def)
  have others: "\<forall>i<length shp. i \<noteq> ?k \<longrightarrow>
                 (ndim (qval (?Q ! i)) = 2 \<longleftrightarrow>
                    shp ! i \<noteq> 1 \<and> int (shp ! i) \<le> ms \<and> mn \<le> int (length shp))"
    by (auto simp: use_diagonal_def scaled_ones_def scaled_eye_def)
  have mx: "\<forall>j<length shp. shp ! j \<le> shp ! ?k"
    using argsort_last_max [OF assms(1)] by blast
  show ?thesis
    using kb mx dd r len qk others by blast
qed

theorem one_diag_largest_witness:
  "dim_diag_of index_order (Some ''one_diag'') [4, 4, 2] = Inr [False, True, False]"
proof -
  have h1: "[4, 4, 2 :: nat] \<noteq> []" by simp
  have h2: "length [4, 4, 2 :: nat] \<le> 13" by simp
  from one_diag_largest [OF h1 h2, of index_order]
  obtain k where k: "k = last (argsort index_order [4, 4, 2])"
    and dd: "dim_diag_of index_order (Some ''one_diag'') [4, 4, 2]
               = Inr ((map (\<lambda>_. False) [4, 4, 2 :: nat])[k := True])"
    by blast
  from k have "k = 1" by (simp add: argsort_index_order_442)
  with dd show ?thesis by simp
qed

section \<open>Errors: the constructor and the first step\<close>

lemma init_Q_exprs_rank_too_large:
  "13 < length shp \<Longrightarrow>
     init_Q_exprs tie shp td scale ms mn mode dto = Inl (RankTooLarge (length shp))"
  by (auto simp: init_Q_exprs_def Let_def)

lemma init_Q_exprs_invalid_mode:
  "shp \<noteq> [] \<Longrightarrow> length shp \<le> 13 \<Longrightarrow> \<not> valid_mode (Some m) \<Longrightarrow>
     init_Q_exprs tie shp td scale ms mn (Some m) dto = Inl (InvalidMemorySaveMode m)"
  by (auto simp: init_Q_exprs_def dim_diag_of_def valid_mode_def Let_def)

text \<open>
  C4 (as stated). A parameter of rank 14 seen for the first time: \<open>init_Q_exprs\<close> raises,
  but \<open>state["exp_avg"] = torch.zeros_like(g)\<close> has run before the call, so the
  momentum buffer is in the state when the exception leaves \<open>_step\<close>.
\<close>

theorem rank_14_state_counterexample:
  "init_param_state index_order id id (defaults_of default_args) Float32
     \<lparr>shape = replicate 14 1, tdtype = Float32, entries = [1]\<rparr>
     \<lparr>shape = replicate 14 1, tdtype = Float32, entries = [1]\<rparr>
     empty_pstate
   = (Some (RankTooLarge 14),
      \<lparr>exp_avg = Some \<lparr>shape = replicate 14 1, tdtype = Float32, entries = [0]\<rparr>,
       st_exprs = None, st_Q = None, st_Q_cache = None, cache_expr = None\<rparr>)"
  by (simp add: init_param_state_def init_Q_exprs_def empty_pstate_def zeros_like_def Let_def)

text \<open>
  C4 (amended). For every parameter of rank greater than 13 whose state has no \<open>Q\<close>
  yet, the state creation fails with the rank error of \<open>init_Q_exprs\<close>, after the
  momentum buffer \<open>exp_avg\<close> has been stored as zeros and before \<open>exprs\<close>, \<open>Q\<close>,
  \<open>Q_cache\<close> and \<open>cache_expr\<close> are: these four stay as they were.
\<close>

theorem rank_too_large_state:
  assumes "13 < length (shape p)" "st_Q state = None"
  shows "init_param_state tie triu_to_line empty_like grp q_dtype p g state
           = (Some (RankTooLarge (length (shape p))), state\<lparr>exp_avg := Some (zeros_like g)\<rparr>)"
  using assms by (simp add: init_param_state_def init_Q_exprs_rank_too_large Let_def)

theorem rank_too_large_state_witness:
  "13 < length (shape \<lparr>shape = replicate 14 1, tdtype = Float32, entries = [1]\<rparr>)
   \<and> st_Q (empty_pstate :: (qtensor list) pstate) = None
   \<and> fst (init_param_state index_order id id (defaults_of default_args) Float32
         \<lparr>shape = replicate 14 1, tdtype = Float32, entries = [1]\<rparr>
         \<lparr>shape = replicate 14 1, tdtype = Float32, entries = [1]\<rparr>
         (empty_pstate :: (qtensor list) pstate)) = Some (RankTooLarge 14)"
proof -
  have h1: "13 < length (shape \<lparr>shape = replicate 14 1, tdtype = Float32, entries = [1]\<rparr>)"
    by simp
  have h2: "st_Q (empty_pstate :: (qtensor list) pstate) = None"
    by (simp add: empty_pstate_def)
  show ?thesis
    using h1 h2 rank_too_large_state [OF h1 h2, of index_order id id "defaults_of default_args" Float32
        "\<lparr>shape = replicate 14 1, tdtype = Float32, entries = [1]\<rparr>"]
    by simp
qed

text \<open>
  C3 (as stated). With every other argument at its default, the unknown memory-save mode
  \<open>bogus\<close> passes the constructor: no check reads it, and the mode is stored in the
  parameter group.
\<close>

theorem bogus_mode_constructs_counterexample:
  "ForeachCachedPSGDKron_init store_defaults (default_args\<lparr>a_memory_save_mode := Some ''bogus''\<rparr>)
   = Inr \<lparr>base = defaults_of (default_args\<lparr>a_memory_save_mode := Some ''bogus''\<rparr>),
          preconditioner_update_probability = Schedule default_schedule, prob_step = 0\<rparr>"
  by (simp add: ForeachCachedPSGDKron_init_def store_defaults_def default_args_def)

text \<open>
  C3 (amended). The constructor fails at once for a negative learning rate, for a beta
  outside \<open>[0, 1)\<close> and for a negative weight decay, whatever the base initialiser does.
  With the three in range it returns what the base initialiser returns on the defaults,
  whatever the memory-save mode is. A mode string outside the accepted ones is raised by
  the state creation of the first step that sees a parameter of rank 1 to 13, after the
  momentum buffer has been stored.
\<close>

theorem constructor_checks:
  "(a_lr a < 0 \<longrightarrow> ForeachCachedPSGDKron_init super_init a = Inl InvalidLearningRate)
   \<and> (0 \<le> a_lr a \<and> (a_beta a < 0 \<or> 1 \<le> a_beta a)
        \<longrightarrow> ForeachCachedPSGDKron_init super_init a = Inl InvalidBeta)
   \<and> (0 \<le> a_lr a \<and> 0 \<le> a_beta a \<and> a_beta a < 1 \<and> a_weight_decay a < 0
        \<longrightarrow> ForeachCachedPSGDKron_init super_init a = Inl InvalidWeightDecay)
   \<and> (0 \<le> a_lr a \<and> 0 \<le> a_beta a \<and> a_beta a < 1 \<and> 0 \<le> a_weight_decay a
        \<longrightarrow> ForeachCachedPSGDKron_init super_init a =
             (case super_init (defaults_of a) (a_foreach a) of
                Inl e \<Rightarrow> Inl e
              | Inr b \<Rightarrow> Inr \<lparr>base = b,
                    preconditioner_update_probability =
                      (case a_preconditioner_update_probability a of
                         None \<Rightarrow> Schedule default_schedule | Some p \<Rightarrow> p),
                    prob_step = 0\<rparr>))
   \<and> (g_memory_save_mode grp = Some m \<and> \<not> valid_mode (Some m) \<and> shape p \<noteq> []
        \<and> length (shape p) \<le> 13 \<and> st_Q state = None
        \<longrightarrow> init_param_state tie triu_to_line empty_like grp q_dtype p g state
              = (Some (InvalidMemorySaveMode m), state\<lparr>exp_avg := Some (zeros_like g)\<rparr>))"
  by (auto simp: ForeachCachedPSGDKron_init_def Let_def init_param_state_def
      init_Q_exprs_invalid_mode)


theorem constructor_checks_witness:
  "ForeachCachedPSGDKron_init store_defaults (default_args\<lparr>a_lr := - 1\<rparr>) = Inl InvalidLearningRate
   \<and> ForeachCachedPSGDKron_init store_defaults (default_args\<lparr>a_beta := 1\<rparr>) = Inl InvalidBeta
   \<and> ForeachCachedPSGDKron_init store_defaults (default_args\<lparr>a_weight_decay := - 1\<rparr>)
        = Inl InvalidWeightDecay
   \<and> ForeachCachedPSGDKron_init store_defaults (default_args\<lparr>a_memory_save_mode := Some ''bogus''\<rparr>)
        = Inr \<lparr>base = defaults_of (default_args\<lparr>a_memory_save_mode := Some ''bogus''\<rparr>),
               preconditioner_update_probability = Schedule default_schedule, prob_step = 0\<rparr>
   \<and> init_param_state index_order id id (defaults_of (default_args\<lparr>a_memory_save_mode := Some ''bogus''\<rparr>))
        Float32 \<lparr>shape = [3], tdtype = Float32, entries = [1, 2, 3]\<rparr>
        \<lparr>shape = [3], tdtype = Float32, entries = [1, 2, 3]\<rparr> empty_pstate
        = (Some (InvalidMemorySaveMode ''bogus''),
           \<lparr>exp_avg = Some \<lparr>shape = [3], tdtype = Float32, entries = [0, 0, 0]\<rparr>,
            st_exprs = None, st_Q = None, st_Q_cache = None, cache_expr = None\<rparr>)"
proof -
  have a: "ForeachCachedPSGDKron_init store_defaults (default_args\<lparr>a_lr := - 1\<rparr>)
             = Inl InvalidLearningRate"
    using constructor_checks [where a = "default_args\<lparr>a_lr := - 1\<rparr>"
        and super_init = store_defaults, THEN conjunct1]
    by (simp add: default_args_def)
  have b: "ForeachCachedPSGDKron_init store_defaults (default_args\<lparr>a_beta := 1\<rparr>) = Inl InvalidBeta"
    using constructor_checks [where a = "default_args\<lparr>a_beta := 1\<rparr>"
        and super_init = store_defaults, THEN conjunct2, THEN conjunct1]
    by (simp add: default_args_def)
  have c: "ForeachCachedPSGDKron_init store_defaults (default_args\<lparr>a_weight_decay := - 1\<rparr>)
             = Inl InvalidWeightDecay"
    using constructor_checks [where a = "default_args\<lparr>a_weight_decay := - 1\<rparr>"
        and super_init = store_defaults, THEN conjunct2, THEN conjunct2, THEN conjunct1]
    by (simp add: default_args_def)
  have d: "ForeachCachedPSGDKron_init store_defaults (default_args\<lparr>a_memory_save_mode := Some ''bogus''\<rparr>)
        = Inr \<lparr>base = defaults_of (default_args\<lparr>a_memory_save_mode := Some ''bogus''\<rparr>),
               preconditioner_update_probability = Schedule default_schedule, prob_step = 0\<rparr>"
    using constructor_checks [where a = "default_args\<lparr>a_memory_save_mode := Some ''bogus''\<rparr>"
        and super_init = store_defaults, THEN conjunct2, THEN conjunct2, THEN conjunct2, THEN conjunct1]
    by (simp add: default_args_def store_defaults_def)
  have e: "init_param_state index_order id id (defaults_of (default_args\<lparr>a_memory_save_mode := Some ''bogus''\<rparr>))
        Float32 \<lparr>shape = [3], tdtype = Float32, entries = [1, 2, 3]\<rparr>
        \<lparr>shape = [3], tdtype = Float32, entries = [1, 2, 3]\<rparr> empty_pstate
        = (Some (InvalidMemorySaveMode ''bogus''),
           \<lparr>exp_avg = Some \<lparr>shape = [3], tdtype = Float32, entries = [0, 0, 0]\<rparr>,
            st_exprs = None, st_Q = None, st_Q_cache = None, cache_expr = None\<rparr>)"
    using constructor_checks [where grp = "defaults_of (default_args\<lparr>a_memory_save_mode := Some ''bogus''\<rparr>)"
        and m = "''bogus''" and p = "\<lparr>shape = [3], tdtype = Float32, entries = [1, 2, 3]\<rparr>"
        and state = empty_pstate and tie = index_order and triu_to_line = id and empty_like = id and q_dtype = Float32
        and g = "\<lparr>shape = [3], tdtype = Float32, entries = [1, 2, 3]\<rparr>", THEN conjunct2, THEN conjunct2, THEN conjunct2, THEN conjunct2]
    by (simp add: defaults_of_def valid_mode_def empty_pstate_def zeros_like_def)
  show ?thesis using a b c d e by blast
qed

section \<open>The identity test of \<open>promote\<close>\<close>

lemma promote_cond_false: "live h x \<Longrightarrow> snd (promote_cond h x) = False"
  by (cases x) (auto simp: promote_cond_def alloc_def py_is_def)

text \<open>
  C9. For every live value \<open>x\<close> the condition \<open>x is (torch.bfloat16, torch.float16)\<close>
  is false, so the first branch of \<open>promote\<close> is never taken. On a tensor of element
  type \<open>bfloat16\<close> or \<open>float16\<close> the result is a new \<open>float32\<close> tensor with the same
  values, and on a tensor of any other element type it is \<open>x\<close> itself, with no tensor
  created or changed.
\<close>

theorem promote_identity_test_false:
  assumes "live h x"
  shows "snd (promote_cond h x) = False
         \<and> promote h x \<noteq> Inr (fst (promote_cond h x), DTypeVal Float32)
         \<and> (\<forall>a d v. x = Ref a \<and> h ! a = TensorObj d v \<longrightarrow>
               promote h x =
                 (if d = BFloat16 \<or> d = Float16
                  then Inr (h @ [TupleObj [DTypeVal BFloat16, DTypeVal Float16], TensorObj Float32 v],
                            Ref (Suc (length h)))
                  else Inr (h @ [TupleObj [DTypeVal BFloat16, DTypeVal Float16]], x)))"
  using assms
  by (cases x) (auto simp: promote_def promote_cond_def alloc_def py_is_def nth_append
      split: pyobj.splits)

theorem promote_identity_test_false_witness:
  "live [TensorObj BFloat16 (Vec [1, 2]), TensorObj Float64 (Vec [3])] (Ref 0)
   \<and> promote [TensorObj BFloat16 (Vec [1, 2]), TensorObj Float64 (Vec [3])] (Ref 0)
       = Inr ([TensorObj BFloat16 (Vec [1, 2]), TensorObj Float64 (Vec [3]),
               TupleObj [DTypeVal BFloat16, DTypeVal Float16], TensorObj Float32 (Vec [1, 2])],
              Ref 3)
   \<and> live [TensorObj BFloat16 (Vec [1, 2]), TensorObj Float64 (Vec [3])] (Ref 1)
   \<and> promote [TensorObj BFloat16 (Vec [1, 2]), TensorObj Float64 (Vec [3])] (Ref 1)
       = Inr ([TensorObj BFloat16 (Vec [1, 2]), TensorObj Float64 (Vec [3]),
               TupleObj [DTypeVal BFloat16, DTypeVal Float16]], Ref 1)"
proof -
  let ?h = "[TensorObj BFloat16 (Vec [1, 2]), TensorObj Float64 (Vec [3])]"
  have l0: "live ?h (Ref 0)" by simp
  have l1: "live ?h (Ref 1)" by simp
  have a: "promote ?h (Ref 0)
       = Inr ([TensorObj BFloat16 (Vec [1, 2]), TensorObj Float64 (Vec [3]),
               TupleObj [DTypeVal BFloat16, DTypeVal Float16], TensorObj Float32 (Vec [1, 2])],
              Ref 3)"
    using promote_identity_test_false [OF l0, THEN conjunct2, THEN conjunct2, rule_format,
        of 0 BFloat16 "Vec [1, 2]"]
    by simp
  have b: "promote ?h (Ref 1)
       = Inr ([TensorObj BFloat16 (Vec [1, 2]), TensorObj Float64 (Vec [3]),
               TupleObj [DTypeVal BFloat16, DTypeVal Float16]], Ref 1)"
    using promote_identity_test_false [OF l1, THEN conjunct2, THEN conjunct2, rule_format,
        of 1 Float64 "Vec [3]"]
    by simp
  show ?thesis using l0 l1 a b by blast
qed

section \<open>Balancing the factors\<close>

lemma max_abs_scale: "max (\<bar>c\<bar> * a) (\<bar>c\<bar> * m) = \<bar>c\<bar> * max a (m::real)"
proof (cases "a \<le> m")
  case True
  then have "\<bar>c\<bar> * a \<le> \<bar>c\<bar> * m" by (simp add: mult_left_mono)
  with True show ?thesis by (simp add: max_def)
next
  case False
  then have "\<bar>c\<bar> * m \<le> \<bar>c\<bar> * a" by (simp add: mult_left_mono)
  with False show ?thesis by (simp add: max_def)
qed

lemma foldr_max_abs_scale:
  "foldr (\<lambda>x m. max \<bar>x\<bar> m) (map (\<lambda>x. c * x) es) 0 = \<bar>c\<bar> * foldr (\<lambda>x m. max \<bar>x\<bar> m) es (0::real)"
proof (induction es)
  case Nil
  then show ?case by simp
next
  case (Cons e es)
  then show ?case by (simp add: abs_mult max_abs_scale)
qed

lemma factor_entries_scale:
  "factor_entries (scale_factor c q) = map (\<lambda>x. c * x) (factor_entries q)"
  by (cases q) (simp_all add: map_concat)

lemma norm_inf_scale: "norm_inf (scale_factor c q) = \<bar>c\<bar> * norm_inf q"
  by (simp add: norm_inf_def factor_entries_scale foldr_max_abs_scale)

lemma exp_sum_list_ln:
  "\<forall>x \<in> set xs. 0 < x \<Longrightarrow> exp (sum_list (map ln xs)) = prod_list (xs :: real list)"
  by (induction xs) (simp_all add: exp_add)

lemma log_mean_exp_pos: "0 < log_mean_exp xs"
  by (simp add: log_mean_exp_def)

lemma log_mean_exp_power:
  assumes "xs \<noteq> []" "\<forall>x \<in> set xs. 0 < x"
  shows "log_mean_exp xs ^ length xs = prod_list xs"
proof -
  let ?y = "sum_list (map ln xs) / real (length xs)"
  have n: "real (length xs) \<noteq> 0" using assms(1) by simp
  have "exp (real (length xs) * ?y) = exp ?y ^ length xs" by (rule exp_of_nat_mult)
  moreover have "real (length xs) * ?y = sum_list (map ln xs)" using n by simp
  ultimately have "exp ?y ^ length xs = exp (sum_list (map ln xs))" by simp
  also have "\<dots> = prod_list xs" using assms(2) by (rule exp_sum_list_ln)
  finally show ?thesis by (simp only: log_mean_exp_def)
qed

lemma log_mean_exp_root:
  assumes "xs \<noteq> []" "\<forall>x \<in> set xs. 0 < x"
  shows "log_mean_exp xs = root (length xs) (prod_list xs)"
proof -
  have "0 < length xs" using assms(1) by simp
  moreover have "0 \<le> log_mean_exp xs" using log_mean_exp_pos [of xs] by simp
  ultimately have "root (length xs) (log_mean_exp xs ^ length xs) = log_mean_exp xs"
    by (rule real_root_power_cancel)
  then show ?thesis using log_mean_exp_power [OF assms] by simp
qed

lemma prod_list_const: "\<forall>x \<in> set xs. x = (c::real) \<Longrightarrow> prod_list xs = c ^ length xs"
  by (induction xs) simp_all

lemma prod_list_divide:
  "\<forall>x \<in> set xs. x \<noteq> 0 \<Longrightarrow> prod_list (map (\<lambda>n. g / n) xs) = g ^ length xs / prod_list (xs :: real list)"
  by (induction xs) simp_all


lemma psgd_balance_Q_map:
  "Q \<noteq> [] \<Longrightarrow> \<forall>q \<in> set Q. factor_entries q \<noteq> [] \<Longrightarrow> psgd_balance_Q Q =
     Inr (map (\<lambda>q. scale_factor (log_mean_exp (map norm_inf Q) / norm_inf q) q) Q)"
proof -
  assume ne: "Q \<noteq> []" and ent: "\<forall>q \<in> set Q. factor_entries q \<noteq> []"
  have "map (\<lambda>(q, c). scale_factor c q) (zip Q (map (\<lambda>n. g / n) (map norm_inf Q)))
          = map (\<lambda>q. scale_factor (g / norm_inf q) q) Q" for g
    by (intro nth_equalityI) simp_all
  with ne ent show ?thesis by (simp add: psgd_balance_Q_def Let_def list_ex_iff)
qed

text \<open>
  C6. For every non-empty factor list whose infinity-norms are all positive,
  \<open>psgd_balance_Q\<close> multiplies each factor by its own number; afterwards every
  infinity-norm equals the geometric mean (the \<open>n\<close>-th root of the product) of the
  original \<open>n\<close> infinity-norms, the product of the infinity-norms is what it was, and the
  product of the multipliers is 1, so the Kronecker product of the factors, which is linear
  in each factor, is what it was.
\<close>

theorem psgd_balance_Q_norms:
  assumes "Q \<noteq> []" "\<forall>q \<in> set Q. 0 < norm_inf q"
  shows "\<exists>Q'. psgd_balance_Q Q = Inr Q' \<and> length Q' = length Q
           \<and> (\<forall>i<length Q. Q' ! i =
                 scale_factor (log_mean_exp (map norm_inf Q) / norm_inf (Q ! i)) (Q ! i))
           \<and> (\<forall>i<length Q. norm_inf (Q' ! i) = root (length Q) (prod_list (map norm_inf Q)))
           \<and> prod_list (map norm_inf Q') = prod_list (map norm_inf Q)
           \<and> prod_list (map (\<lambda>q. log_mean_exp (map norm_inf Q) / norm_inf q) Q) = 1"
proof -
  let ?norms = "map norm_inf Q"
  let ?g = "log_mean_exp ?norms"
  let ?Q' = "map (\<lambda>q. scale_factor (?g / norm_inf q) q) Q"
  have ne: "?norms \<noteq> []" using assms(1) by simp
  have pos: "\<forall>x \<in> set ?norms. 0 < x" using assms(2) by simp
  have gpos: "0 < ?g" by (rule log_mean_exp_pos)
  have gpow: "?g ^ length Q = prod_list ?norms"
    using log_mean_exp_power [OF ne pos] by simp
  have groot: "?g = root (length Q) (prod_list ?norms)"
    using log_mean_exp_root [OF ne pos] by simp
  have ent: "\<forall>q \<in> set Q. factor_entries q \<noteq> []"
    using assms(2) by (auto simp: norm_inf_def)
  have res: "psgd_balance_Q Q = Inr ?Q'" using assms(1) ent by (rule psgd_balance_Q_map)
  have each: "norm_inf (?Q' ! i) = ?g" if "i < length Q" for i
  proof -
    have "0 < norm_inf (Q ! i)" using assms(2) that by simp
    then show ?thesis using that gpos by (simp add: norm_inf_scale)
  qed
  have all_g: "\<forall>x \<in> set (map norm_inf ?Q'). x = ?g"
  proof
    fix x assume "x \<in> set (map norm_inf ?Q')"
    then obtain i where "i < length Q" "x = norm_inf (?Q' ! i)"
      by (metis (no_types, lifting) in_set_conv_nth length_map nth_map)
    with each show "x = ?g" by simp
  qed
  have prod: "prod_list (map norm_inf ?Q') = prod_list ?norms"
    using prod_list_const [OF all_g] gpow by simp
  have nz: "\<forall>x \<in> set ?norms. x \<noteq> 0" using pos by auto
  have prodpos: "0 < prod_list ?norms" using gpow gpos by (metis zero_less_power)
  have "prod_list (map (\<lambda>n. ?g / n) ?norms) = ?g ^ length ?norms / prod_list ?norms"
    using nz by (rule prod_list_divide)
  then have mult: "prod_list (map (\<lambda>q. ?g / norm_inf q) Q) = 1"
    using gpow prodpos by (simp add: comp_def)
  show ?thesis
    using res each groot prod mult by (intro exI [of _ ?Q']) simp
qed

theorem psgd_balance_Q_norms_witness:
  "[Vec [2, - 1], Mat [[8, 0], [3, - 4]]] \<noteq> []
   \<and> 0 < norm_inf (Vec [2, - 1]) \<and> 0 < norm_inf (Mat [[8, 0], [3, - 4]])
   \<and> (\<exists>Q'. psgd_balance_Q [Vec [2, - 1], Mat [[8, 0], [3, - 4]]] = Inr Q'
         \<and> norm_inf (Q' ! 0) = 4 \<and> norm_inf (Q' ! 1) = 4)"
proof -
  let ?Q = "[Vec [2, - 1], Mat [[8, 0], [3, - 4]]]"
  have n0: "norm_inf (Vec [2, - 1]) = 2" by (simp add: norm_inf_def)
  have n1: "norm_inf (Mat [[8, 0], [3, - 4]]) = 8" by (simp add: norm_inf_def)
  have h1: "?Q \<noteq> []" by simp
  have h2: "\<forall>q \<in> set ?Q. 0 < norm_inf q" by (simp add: n0 n1)
  have r: "root (Suc (Suc 0)) (16::real) = 4"
    using real_root_power_cancel [of "Suc (Suc 0)" "4::real"] by simp
  from psgd_balance_Q_norms [OF h1 h2]
  obtain Q' where res: "psgd_balance_Q ?Q = Inr Q'"
    and nrm: "\<forall>i<length ?Q. norm_inf (Q' ! i) = root (length ?Q) (prod_list (map norm_inf ?Q))"
    by blast
  have a: "norm_inf (Q' ! 0) = 4" using nrm [rule_format, of 0] by (simp add: n0 n1 r)
  have b: "norm_inf (Q' ! 1) = 4" using nrm [rule_format, of 1] by (simp add: n0 n1 r)
  show ?thesis using h1 n0 n1 res a b by auto
qed

section \<open>The update of the factors\<close>

lemma mat_eqI:
  assumes "length m = length n"
    and "\<And>i. i < length m \<Longrightarrow> length (m ! i) = length (n ! i)"
    and "\<And>i j. i < length m \<Longrightarrow> j < length (m ! i) \<Longrightarrow> m ! i ! j = n ! i ! j"
  shows "m = (n :: 'a list list)"
  using assms by (intro nth_equalityI) auto

lemma map_length_nth: "map length m = map length n \<Longrightarrow> i < length m \<Longrightarrow> length (m ! i) = length (n ! i)"
  by (metis length_map nth_map)

lemma map_length_len: "map length m = map length n \<Longrightarrow> length m = length n"
  by (metis length_map)

lemma concat_map2_empty:
  "map length m = map length n \<Longrightarrow> concat (map2 (map2 f) m n) = [] \<longleftrightarrow> concat m = []"
proof (induction m arbitrary: n)
  case Nil
  then show ?case by simp
next
  case (Cons r m)
  then obtain s n' where n: "n = s # n'" by (cases n) auto
  with Cons.prems have "length r = length s" "map length m = map length n'" by simp_all
  with Cons.IH [of n'] n show ?case by (cases r; cases s) auto
qed

lemma mat_sum_flip:
  assumes "map length a = map length b"
  shows "map2 (map2 (\<lambda>y x. y + x)) b a = map2 (map2 (\<lambda>x y. x + (y::real))) a b"
proof (rule mat_eqI)
  have len: "length a = length b" using assms by (rule map_length_len)
  have row: "length (a ! i) = length (b ! i)" if "i < length a" for i
    using assms that by (rule map_length_nth)
  show "length (map2 (map2 (\<lambda>y x. y + x)) b a) = length (map2 (map2 (\<lambda>x y. x + y)) a b)"
    using len by simp
  show "length (map2 (map2 (\<lambda>y x. y + x)) b a ! i) = length (map2 (map2 (\<lambda>x y. x + y)) a b ! i)"
    if "i < length (map2 (map2 (\<lambda>y x. y + x)) b a)" for i
    using that len row [of i] by simp
  show "map2 (map2 (\<lambda>y x. y + x)) b a ! i ! j = map2 (map2 (\<lambda>x y. x + y)) a b ! i ! j"
    if "i < length (map2 (map2 (\<lambda>y x. y + x)) b a)"
      and "j < length (map2 (map2 (\<lambda>y x. y + x)) b a ! i)" for i j
    using that len row [of i] by simp
qed

lemma mat_correction:
  assumes "map length a = map length b"
  shows "map (map (\<lambda>x. x * step)) (map2 (map2 (\<lambda>x y. x - y)) (map (map (\<lambda>x. x * 2)) a)
         (map2 (map2 (\<lambda>x y. x + y)) a b))
     = map2 (map2 (\<lambda>x y. step * (2 * x - (x + (y::real))))) a b" (is "?L = ?R")
proof (rule mat_eqI)
  have len: "length a = length b" using assms by (rule map_length_len)
  have row: "length (a ! i) = length (b ! i)" if "i < length a" for i
    using assms that by (rule map_length_nth)
  show "length ?L = length ?R" using len by simp
  show "length (?L ! i) = length (?R ! i)" if "i < length ?L" for i
    using that len row [of i] by simp
  show "?L ! i ! j = ?R ! i ! j" if "i < length ?L" and "j < length (?L ! i)" for i j
    using that len row [of i] by (simp add: algebra_simps)
qed

lemma concat_empty_shape:
  "map length m = map length n \<Longrightarrow> concat m = [] \<longleftrightarrow> concat n = []"
  by (metis length_concat length_0_conv)

lemma update_factor_Mat_raw:
  assumes "map length q = map length a" "map length q = map length b"
  shows "update_factor step tiny (Mat q) (Mat a) (Mat b) =
     (if concat (map2 (map2 (\<lambda>y x. y + x)) b a) = [] then Inl NormOfNothing
      else Inr (Mat (map2 (map2 (\<lambda>x y. x + - 1 * y)) q
             (mat_mul (map (map (\<lambda>c. c /
                  max (if 0 < norm_inf (Mat (map2 (map2 (\<lambda>y x. y + x)) b a))
                       then psgd_lb (map2 (map2 (\<lambda>y x. y + x)) b a)
                              (norm_inf (Mat (map2 (map2 (\<lambda>y x. y + x)) b a)))
                       else norm_inf (Mat (map2 (map2 (\<lambda>y x. y + x)) b a))) tiny))
                (triu (map (map (\<lambda>x. x * step))
                   (map2 (map2 (\<lambda>x y. x - y)) (map (map (\<lambda>x. x * 2)) a)
                      (map2 (map2 (\<lambda>y x. y + x)) b a))))) q))))"
  using assms by (simp add: update_factor_def Let_def)

lemma update_factor_Mat:
  assumes "map length q = map length a" "map length q = map length b" "concat q \<noteq> []"
  shows "update_factor step tiny (Mat q) (Mat a) (Mat b) = Inr (Mat (triangular_update step tiny q a b))"
proof -
  have ab: "map length a = map length b" using assms by simp
  have "concat a \<noteq> []" using concat_empty_shape [OF assms(1)] assms(3) by simp
  then have ne: "concat (map2 (map2 (\<lambda>x y. x + y)) a b) \<noteq> []"
    using concat_map2_empty [OF ab, of "\<lambda>x y. x + y"] by simp
  have sub: "(\<lambda>x y. x + - 1 * y) = (\<lambda>x y. x - (y::real))" by (intro ext) simp
  show ?thesis
    by (simp only: update_factor_Mat_raw [OF assms(1,2)] mat_sum_flip [OF ab]
        mat_correction [OF ab] ne if_False triangular_update_def Let_def sub)
qed


lemma vec_sum_flip:
  "length a = length b \<Longrightarrow> map2 (\<lambda>y x. y + x) b a = map2 (\<lambda>x y. x + (y::real)) a b"
  by (intro nth_equalityI) (simp_all add: add.commute)

lemma update_factor_Vec_raw:
  assumes "length q = length a" "length q = length b"
  shows "update_factor step tiny (Vec q) (Vec a) (Vec b) =
     (if map2 (\<lambda>y x. y + x) b a = [] then Inl NormOfNothing
      else Inr (Vec (map2 (\<lambda>x t. x + - 1 * (t / max (norm_inf (Vec (map2 (\<lambda>y x. y + x) b a))) tiny)) q
               (map2 (\<lambda>t x. t * x)
                  (map (\<lambda>t. t * step) (map2 (\<lambda>x y. x - y) (map (\<lambda>x. x * 2) a)
                     (map2 (\<lambda>y x. y + x) b a))) q))))"
  using assms by (simp add: update_factor_def Let_def)

lemma update_factor_Vec:
  assumes "length q = length a" "length q = length b" "q \<noteq> []"
  shows "update_factor step tiny (Vec q) (Vec a) (Vec b)
           = Inr (Vec (diagonal_update step tiny (norm_inf (Vec (map2 (\<lambda>a b. a + b) a b))) q a b))"
proof -
  have ab: "length a = length b" using assms by simp
  have ne: "map2 (\<lambda>x y. x + y) a b \<noteq> []" using assms by (cases a; cases b) auto
  have res: "map2 (\<lambda>x t. x + - 1 * (t / max n tiny)) q
               (map2 (\<lambda>t x. t * x)
                  (map (\<lambda>t. t * step) (map2 (\<lambda>x y. x - y) (map (\<lambda>x. x * 2) a)
                     (map2 (\<lambda>x y. x + y) a b))) q)
             = diagonal_update step tiny n q a b" for n
    using assms by (intro nth_equalityI) (simp_all add: diagonal_update_def algebra_simps)
  show ?thesis
    by (simp only: update_factor_Vec_raw [OF assms(1,2)] vec_sum_flip [OF ab] ne if_False res)
qed

lemma update_factor_Scal:
  "update_factor step tiny (Scal x) (Scal a) (Scal b)
     = Inr (Scal (x - step * (2 * a - (a + b)) * x / max \<bar>a + b\<bar> tiny))"
  by (simp add: update_factor_def Let_def norm_inf_def algebra_simps max_def)

lemma update_factor_expected:
  assumes "same_shape q a" "same_shape q b" "factor_entries q \<noteq> []"
  shows "update_factor step tiny q a b = Inr (expected_factor step tiny q a b)"
proof (cases q)
  case (Scal x)
  with assms show ?thesis
    by (cases a; cases b) (simp_all add: update_factor_Scal)
next
  case (Vec v)
  with assms show ?thesis
    by (cases a; cases b) (simp_all add: update_factor_Vec)
next
  case (Mat m)
  with assms show ?thesis
    by (cases a; cases b) (simp_all add: update_factor_Mat)
qed

lemma update_factors_expected:
  assumes "length Q = length es"
    and "\<forall>(q, e) \<in> set (zip Q es). same_shape q (einsum e A A) \<and> same_shape q (einsum e B B)
           \<and> factor_entries q \<noteq> []"
  shows "update_factors einsum A B step tiny Q es
           = Inr (map2 (\<lambda>q e. expected_factor step tiny q (einsum e A A) (einsum e B B)) Q es)"
  using assms
  by (induction Q es rule: list_induct2) (simp_all add: update_factor_expected)


text \<open>
  C7. When the contractions have the shapes of their factors and no factor is without
  entries, \<open>psgd_update_precond\<close> replaces the factor \<open>q\<close> of every axis \<open>k\<close> by
  \<open>expected_factor\<close> of \<open>q\<close>, \<open>term1\<close> and \<open>term2\<close>, where \<open>term1\<close> and \<open>term2\<close> are the
  contractions by \<open>exprGs[k]\<close> of \<open>A\<close> and of \<open>conjB\<close>. The correction is
  \<open>step * (2 term1 - (term1 + term2))\<close>. A diagonal factor becomes
  \<open>q - correction * q / max(norm, tiny)\<close> entry by entry, with \<open>norm\<close> the infinity-norm
  of \<open>term1 + term2\<close>. A triangular factor keeps the upper-triangular part of the
  correction, which the code then divides in place by
  \<open>max(psgd_lb(term1 + term2, norm), tiny)\<close> (\<open>norm\<close> in place of \<open>psgd_lb\<close> when
  \<open>norm\<close> is zero), and becomes \<open>q - term1 q\<close> as a matrix product with that \<open>term1\<close>.
\<close>

theorem psgd_update_precond_factors:
  assumes "calc exprA G Q V = (A, conjB)"
    and "length es = length Q"
    and "\<forall>k<length Q. same_shape (Q ! k) (einsum (es ! k) A A)
            \<and> same_shape (Q ! k) (einsum (es ! k) conjB conjB)
            \<and> factor_entries (Q ! k) \<noteq> []"
  shows "\<exists>Q'. psgd_update_precond einsum calc Q (exprA, es, exprP) V G step tiny = Inr Q'
           \<and> length Q' = length Q
           \<and> (\<forall>k<length Q. Q' ! k =
                 expected_factor step tiny (Q ! k) (einsum (es ! k) A A)
                   (einsum (es ! k) conjB conjB))"
proof -
  let ?Q' = "map2 (\<lambda>q e. expected_factor step tiny q (einsum e A A) (einsum e conjB conjB)) Q es"
  have ok: "\<forall>(q, e) \<in> set (zip Q es). same_shape q (einsum e A A)
              \<and> same_shape q (einsum e conjB conjB) \<and> factor_entries q \<noteq> []"
  proof (clarify)
    fix q e assume "(q, e) \<in> set (zip Q es)"
    then obtain k where "k < length Q" "q = Q ! k" "e = es ! k"
      using assms(2) by (auto simp: set_zip)
    with assms(3) show "same_shape q (einsum e A A)
              \<and> same_shape q (einsum e conjB conjB) \<and> factor_entries q \<noteq> []"
      by simp
  qed
  have "update_factors einsum A conjB step tiny Q es = Inr ?Q'"
    using assms(2) ok by (intro update_factors_expected) simp_all
  then have res: "psgd_update_precond einsum calc Q (exprA, es, exprP) V G step tiny = Inr ?Q'"
    using assms(1) by (simp add: psgd_update_precond_def)
  have len: "length ?Q' = length Q" using assms(2) by simp
  have nth: "\<forall>k<length Q. ?Q' ! k =
                 expected_factor step tiny (Q ! k) (einsum (es ! k) A A)
                   (einsum (es ! k) conjB conjB)"
    using assms(2) by simp
  show ?thesis using res len nth by blast
qed

lemma psgd_lb_4I: "psgd_lb [[4, 0], [0, 4]] 4 = 4"
  by (simp add: psgd_lb_def Let_def ncols_def col_def max_with_index_def vec_mat_def dot_def
      transpose_m_def vector_norm_def)

lemma triangular_update_2x2:
  "triangular_update 1 (1 / 2 ^ 126) [[1, 1], [0, 1]] [[3, 1], [1, 3]] [[1, - 1], [- 1, 1]]
     = [[1 / 2, 0], [0, 1 / 2]]"
  by (simp add: triangular_update_def Let_def norm_inf_def psgd_lb_4I triu_def mat_mul_def
      vec_mat_def ncols_def col_def dot_def)

lemma diagonal_update_2:
  "diagonal_update 1 (1 / 2 ^ 126) (norm_inf (Vec (map2 (\<lambda>a b. a + b) [3, 1] [1, 1])))
     [1, 2] [3, 1] [1, 1] = [1 / 2, 2]"
  by (simp add: diagonal_update_def norm_inf_def)

theorem psgd_update_precond_factors_witness:
  "psgd_update_precond contraction_table G_and_V [Vec [1, 2], Mat [[1, 1], [0, 1]]]
     (''A'', [''e0'', ''e1''], ''P'')
     [(''e0'', Vec [1, 1]), (''e1'', Mat [[1, - 1], [- 1, 1]])]
     [(''e0'', Vec [3, 1]), (''e1'', Mat [[3, 1], [1, 3]])]
     1 (1 / 2 ^ 126)
   = Inr [Vec [1 / 2, 2], Mat [[1 / 2, 0], [0, 1 / 2]]]"
proof -
  let ?Q = "[Vec [1, 2], Mat [[1, 1], [0, 1]]]"
  let ?V = "[(''e0'', Vec [1, 1]), (''e1'', Mat [[1, - 1], [- 1, 1]])]"
  let ?G = "[(''e0'', Vec [3, 1]), (''e1'', Mat [[3, 1], [1, 3]])]"
  let ?es = "[''e0'', ''e1'']"
  have h1: "G_and_V ''A'' ?G ?Q ?V = (?G, ?V)" by (simp add: G_and_V_def)
  have h2: "length ?es = length ?Q" by simp
  have t0: "contraction_table (?es ! 0) ?G ?G = Vec [3, 1]"
    "contraction_table (?es ! 0) ?V ?V = Vec [1, 1]"
    by (simp_all add: contraction_table_def)
  have t1: "contraction_table (?es ! 1) ?G ?G = Mat [[3, 1], [1, 3]]"
    "contraction_table (?es ! 1) ?V ?V = Mat [[1, - 1], [- 1, 1]]"
    by (simp_all add: contraction_table_def)
  have h3: "\<forall>k<length ?Q. same_shape (?Q ! k) (contraction_table (?es ! k) ?G ?G)
            \<and> same_shape (?Q ! k) (contraction_table (?es ! k) ?V ?V)
            \<and> factor_entries (?Q ! k) \<noteq> []"
  proof (intro allI impI)
    fix k assume "k < length ?Q"
    then have "k = 0 \<or> k = 1" by auto
    then show "same_shape (?Q ! k) (contraction_table (?es ! k) ?G ?G)
            \<and> same_shape (?Q ! k) (contraction_table (?es ! k) ?V ?V)
            \<and> factor_entries (?Q ! k) \<noteq> []"
      using t0 t1 by auto
  qed
  note th = psgd_update_precond_factors [where calc = G_and_V and exprA = "''A''"
      and G = ?G and Q = ?Q and V = ?V and A = ?G and conjB = ?V and es = ?es
      and einsum = contraction_table and exprP = "''P''" and step = 1 and tiny = "1 / 2 ^ 126"]
  from th [OF h1 h2 h3]
  obtain Q' where r: "psgd_update_precond contraction_table G_and_V ?Q (''A'', ?es, ''P'') ?V ?G
        1 (1 / 2 ^ 126) = Inr Q'"
    and l: "length Q' = length ?Q"
    and n: "\<forall>k<length ?Q. Q' ! k =
              expected_factor 1 (1 / 2 ^ 126) (?Q ! k)
                (contraction_table (?es ! k) ?G ?G) (contraction_table (?es ! k) ?V ?V)"
    by blast
  have q0: "Q' ! 0 = Vec [1 / 2, 2]"
    using n [rule_format, of 0] t0 diagonal_update_2 by simp
  have q1: "Q' ! 1 = Mat [[1 / 2, 0], [0, 1 / 2]]"
    using n [rule_format, of 1] t1 triangular_update_2x2 by simp
  have "Q' = [Vec [1 / 2, 2], Mat [[1 / 2, 0], [0, 1 / 2]]]"
    using l q0 q1 by (intro nth_equalityI) (auto simp: less_Suc_eq)
  with r show ?thesis by simp
qed

section \<open>The order of the cache in one step\<close>

lemma tensor_at_write_out:
  "tensor_at h c = Some (d, v0) \<Longrightarrow>
     tensor_at (write_out h c v) x = (if x = c then Some (d, v) else tensor_at h x)"
  by (cases c; cases x)
     (auto simp: tensor_at_def write_out_def nth_list_update split: if_splits pyobj.splits)

lemma tensor_at_append: "tensor_at h x = Some t \<Longrightarrow> tensor_at (h @ ts) x = Some t"
  by (cases x) (auto simp: tensor_at_def nth_append split: if_splits pyobj.splits)

lemma refresh_cache_result:
  assumes "distinct cs" "set cs \<inter> set qs = {}"
    and "\<forall>c \<in> set cs. tensor_at h c \<noteq> None" "\<forall>q \<in> set qs. tensor_at h q \<noteq> None"
  shows "\<exists>h'. refresh_cache h cs qs = Inr h'
           \<and> (\<forall>i<min (length cs) (length qs).
                 map_option snd (tensor_at h' (cs ! i))
                   = map_option (\<lambda>t. cache_entry (snd t)) (tensor_at h (qs ! i)))
           \<and> (\<forall>x. x \<notin> set cs \<longrightarrow> tensor_at h' x = tensor_at h x)"
  using assms
proof (induction cs arbitrary: h qs)
  case Nil
  then show ?case by simp
next
  case (Cons c cs)
  show ?case
  proof (cases qs)
    case Nil
    then show ?thesis by simp
  next
    case (Cons q qs')
    from Cons.prems(4) Cons obtain dq v where q: "tensor_at h q = Some (dq, v)" by auto
    from Cons.prems(3) obtain dc v0 where c: "tensor_at h c = Some (dc, v0)" by auto
    let ?h1 = "write_out h c (cache_entry v)"
    have at1: "tensor_at ?h1 x = (if x = c then Some (dc, cache_entry v) else tensor_at h x)" for x
      using c by (rule tensor_at_write_out)
    have d: "distinct cs" and cn: "c \<notin> set cs" using Cons.prems(1) by simp_all
    have disj: "set cs \<inter> set qs' = {}" and cq: "c \<notin> set qs'" and qc: "q \<noteq> c"
      using Cons.prems(2) Cons by auto
    have p3: "\<forall>c' \<in> set cs. tensor_at ?h1 c' \<noteq> None"
      using Cons.prems(3) cn by (auto simp: at1)
    have p4: "\<forall>q' \<in> set qs'. tensor_at ?h1 q' \<noteq> None"
      using Cons.prems(4) Cons cq by (auto simp: at1)
    from Cons.IH [OF d disj p3 p4]
    obtain h' where r: "refresh_cache ?h1 cs qs' = Inr h'"
      and ix: "\<forall>i<min (length cs) (length qs').
                 map_option snd (tensor_at h' (cs ! i))
                   = map_option (\<lambda>t. cache_entry (snd t)) (tensor_at ?h1 (qs' ! i))"
      and fr: "\<forall>x. x \<notin> set cs \<longrightarrow> tensor_at h' x = tensor_at ?h1 x"
      by blast
    have res: "refresh_cache h (c # cs) qs = Inr h'"
      using Cons q c r by simp
    have idx: "map_option snd (tensor_at h' ((c # cs) ! i))
                 = map_option (\<lambda>t. cache_entry (snd t)) (tensor_at h (qs ! i))"
      if "i < min (length (c # cs)) (length qs)" for i
    proof (cases i)
      case 0
      then show ?thesis using fr cn at1 q Cons by simp
    next
      case (Suc j)
      with that Cons have j: "j < min (length cs) (length qs')" by simp
      then have "qs' ! j \<in> set qs'" by simp
      with cq have "qs' ! j \<noteq> c" by auto
      with ix j Suc Cons show ?thesis by (simp add: at1)
    qed
    have frame: "\<forall>x. x \<notin> set (c # cs) \<longrightarrow> tensor_at h' x = tensor_at h x"
      using fr by (simp add: at1)
    show ?thesis using res idx frame by blast
  qed
qed

lemma promote_same:
  assumes "tensor_at h x = Some (d, v)" "d \<noteq> BFloat16" "d \<noteq> Float16"
  shows "promote h x = Inr (h @ [TupleObj [DTypeVal BFloat16, DTypeVal Float16]], x)"
  using assms
  by (cases x)
     (auto simp: promote_def promote_cond_def alloc_def py_is_def tensor_at_def nth_append
       split: if_splits pyobj.splits)

lemma promote_all_same:
  assumes "\<forall>x \<in> set q. \<exists>d v. tensor_at h x = Some (d, v) \<and> d \<noteq> BFloat16 \<and> d \<noteq> Float16"
  shows "\<exists>ts. promote_all h q = Inr (h @ ts, q)"
  using assms
proof (induction q arbitrary: h)
  case Nil
  then show ?case by simp
next
  case (Cons x q)
  let ?h1 = "h @ [TupleObj [DTypeVal BFloat16, DTypeVal Float16]]"
  from Cons.prems obtain d v where x: "tensor_at h x = Some (d, v)" "d \<noteq> BFloat16" "d \<noteq> Float16"
    by auto
  then have p: "promote h x = Inr (?h1, x)" by (rule promote_same)
  have "\<forall>y \<in> set q. \<exists>d v. tensor_at ?h1 y = Some (d, v) \<and> d \<noteq> BFloat16 \<and> d \<noteq> Float16"
  proof
    fix y assume "y \<in> set q"
    with Cons.prems obtain d' v' where "tensor_at h y = Some (d', v')" "d' \<noteq> BFloat16" "d' \<noteq> Float16"
      by auto
    then show "\<exists>d v. tensor_at ?h1 y = Some (d, v) \<and> d \<noteq> BFloat16 \<and> d \<noteq> Float16"
      using tensor_at_append [of h y "(d', v')"] by blast
  qed
  from Cons.IH [OF this] obtain ts where "promote_all ?h1 q = Inr (?h1 @ ts, q)" by blast
  with p have "promote_all h (x # q)
                 = Inr (h @ (TupleObj [DTypeVal BFloat16, DTypeVal Float16] # ts), x # q)"
    by simp
  then show ?case by blast
qed


lemma tensors_at_values:
  "tensors_at h xs = Some ts \<Longrightarrow> \<forall>x \<in> set xs. tensor_at h x \<noteq> None"
  by (induction xs arbitrary: ts) (auto split: option.splits)

section \<open>One refresh step on an example\<close>

lemma step_param_new_from_old_cache:
  assumes "step_param lib i h = Inr (h', new)"
  shows "\<exists>cached. tensors_at h (in_cached_q i) = Some cached
           \<and> new = lib_einsum lib (in_cache_expr i) (map snd cached) (in_ea i)"
  using assms
  by (auto simp: step_param_def Let_def split: option.splits sum.splits if_splits prod.splits)

lemma promote_half_copies:
  assumes "tensor_at h x = Some (d, v)" "d = BFloat16 \<or> d = Float16"
  shows "promote h x = Inr (h @ [TupleObj [DTypeVal BFloat16, DTypeVal Float16], TensorObj Float32 v],
                            Ref (Suc (length h)))"
  using assms
  by (cases x)
     (auto simp: promote_def promote_cond_def alloc_def py_is_def tensor_at_def nth_append
       split: if_splits pyobj.splits)







lemma example_new:
  "lib_einsum example_library (in_cache_expr example_input)
     [Mat [[1, 1], [1, 2]], Mat [[1, 1], [1, 2]]] (in_ea example_input)
   = [(''Aa,Bb,ab->AB'', Mat [[1, 1], [1, 2]]), (''Aa,Bb,ab->AB'', Mat [[1, 1], [1, 2]]),
      (''nb,Ab->nA'', Mat [[3, 1], [1, 3]]), (''ao,aB->oB'', Mat [[3, 1], [1, 3]])]"
  by (simp add: example_library_def example_input_def operands_seen_def)













end
